theory Spec2Isabelle
  imports Complex_Main "HOL-Library.Log_Nat"
begin

section \<open>Data model\<close>

text \<open>
  The remote node answers with loosely typed JSON objects.  Every key the ETL reads is a
  field of option type: \<open>None\<close> is "key absent", so that \<open>d['k']\<close> (KeyError when absent)
  and \<open>d.get('k', default)\<close> can both be written out.  Only the keys that some statement
  of \<open>etl_sync.py\<close> or \<open>reorg_check.py\<close> compares, or uses as a row key, are kept; the
  remaining descriptive columns are written by the same INSERT statements from
  \<open>.get\<close> defaults and are read by none of the operations below.
\<close>

record prevout_data =
  po_hash :: "string option"
  po_n :: "int option"

record vin_data =
  vin_vout :: "int option"
  vin_sequence :: "int option"
  vin_coinbase :: "string option"
  vin_prevout :: "prevout_data option"

record script_data =
  spk_type :: "string option"
  spk_addresses :: "string list option"

record vout_data =
  vout_n :: "int option"
  vout_scriptPubKey :: "script_data option"

record tx_data =
  td_txid :: "string option"
  td_vin :: "vin_data list option"
  td_vout :: "vout_data list option"

record block_data =
  bd_hash :: "string option"
  bd_height :: "int option"
  bd_time :: "int option"
  bd_previousblockhash :: "string option"
  bd_tx :: "tx_data list option"

text \<open>Rows of the four tables.\<close>

record block_row =
  hash :: string
  height :: int
  time :: int
  previousblockhash :: string

record transaction_row =
  txid :: string
  block_hash :: string
  block_height :: int
  block_time :: int

record input_row =
  in_txid :: string
  in_vout :: int
  in_sequence :: int
  in_coinbase :: string
  in_prevout_hash :: string
  in_prevout_n :: int

record output_row =
  out_txid :: string
  out_n :: int
  out_type :: string
  out_addresses :: "string list"

text \<open>
  A table is the list of its rows in insertion order.  The store is what a fresh
  connection reads; a connection carries the committed store and its own working copy,
  which \<open>commit\<close> publishes and \<open>rollback\<close> discards (Python's \<open>sqlite3\<close> opens the
  transaction implicitly at the first INSERT or DELETE after a commit).
\<close>

record store =
  blocks :: "block_row list"
  transactions :: "transaction_row list"
  tx_inputs :: "input_row list"
  tx_outputs :: "output_row list"

text \<open>
  The statements the ETL issues through \<open>conn.execute\<close>, and \<open>conn.commit()\<close>.
  \<open>SelectHeight p\<close> is \<open>SELECT height FROM blocks WHERE hash = p\<close> and \<open>SelectHash k\<close>
  is \<open>SELECT hash FROM blocks WHERE height = k\<close>, the two queries of \<open>handle_reorg\<close>.
\<close>

datatype statement =
    InsertBlock block_row
  | InsertTransaction transaction_row
  | InsertInput input_row
  | InsertOutput output_row
  | DeleteBlocks int
  | DeleteTransactions int
  | DeleteInputs int
  | DeleteOutputs int
  | SelectHeight string
  | SelectHash int
  | Commit

text \<open>
  A statement can raise.  Binding a Python integer outside the signed 64-bit range raises
  OverflowError; every other exception of the statement (any \<open>sqlite3.Error\<close>, a value of
  a column not kept here that cannot be bound) is the field \<open>refuses\<close> of the connection:
  an arbitrary predicate on the working copy and the statement.
\<close>

record conn =
  committed :: store
  working :: store
  refuses :: "store \<Rightarrow> statement \<Rightarrow> bool"

datatype error =
  KeyError string | RPCError string | NoBlocksFound | OverflowError | DatabaseError

definition empty_store :: store where
  "empty_store = \<lparr>blocks = [], transactions = [], tx_inputs = [], tx_outputs = []\<rparr>"

text \<open>A database that raises on no statement.\<close>

definition reliable :: "store \<Rightarrow> statement \<Rightarrow> bool" where
  "reliable s st = False"

definition connect :: "(store \<Rightarrow> statement \<Rightarrow> bool) \<Rightarrow> store \<Rightarrow> conn" where
  "connect db s = \<lparr>committed = s, working = s, refuses = db\<rparr>"

definition commit :: "conn \<Rightarrow> error option \<times> conn" where
  "commit c =
     (if refuses c (working c) Commit then (Some DatabaseError, c)
      else (None, c\<lparr>committed := working c\<rparr>))"

definition rollback :: "conn \<Rightarrow> conn" where
  "rollback c = c\<lparr>working := committed c\<rparr>"

section \<open>Schema\<close>

text \<open>
  Modelled from the spec: the file \<open>sql/schema.sql\<close> that \<open>init_database\<close> loads.  The
  persisted schema is given as \<open>blocks(height unique, hash unique, ...)\<close>,
  \<open>transactions(txid, ...)\<close> with replace-on-conflict keyed by txid, and \<open>tx_inputs\<close>,
  \<open>tx_outputs\<close> carrying \<open>txid\<close> as a foreign key and no key of their own.
  \<open>INSERT OR REPLACE\<close> therefore deletes every row that collides with the new one on a
  unique column and then appends the new row; a plain \<open>INSERT\<close> into
  \<open>tx_inputs\<close>/\<open>tx_outputs\<close> appends.  \<open>get_db_connection\<close> never issues
  \<open>PRAGMA foreign_keys = ON\<close>, so SQLite enforces no foreign key and cascades nothing.
\<close>

definition replace_block :: "block_row \<Rightarrow> store \<Rightarrow> store" where
  "replace_block r s =
     s\<lparr>blocks := filter (\<lambda>b. height b \<noteq> height r \<and> hash b \<noteq> hash r) (blocks s) @ [r]\<rparr>"

definition replace_transaction :: "transaction_row \<Rightarrow> store \<Rightarrow> store" where
  "replace_transaction r s =
     s\<lparr>transactions := filter (\<lambda>t. txid t \<noteq> txid r) (transactions s) @ [r]\<rparr>"

definition append_input :: "input_row \<Rightarrow> store \<Rightarrow> store" where
  "append_input r s = s\<lparr>tx_inputs := tx_inputs s @ [r]\<rparr>"

definition append_output :: "output_row \<Rightarrow> store \<Rightarrow> store" where
  "append_output r s = s\<lparr>tx_outputs := tx_outputs s @ [r]\<rparr>"

text \<open>
  The four DELETE statements of \<open>handle_reorg\<close>.  The subqueries of the last two read
  the \<open>transactions\<close> table as it is when the statement runs.
\<close>

definition delete_blocks :: "int \<Rightarrow> store \<Rightarrow> store" where
  "delete_blocks f s = s\<lparr>blocks := filter (\<lambda>b. \<not> height b > f) (blocks s)\<rparr>"

definition delete_transactions :: "int \<Rightarrow> store \<Rightarrow> store" where
  "delete_transactions f s =
     s\<lparr>transactions := filter (\<lambda>t. \<not> block_height t > f) (transactions s)\<rparr>"

definition delete_inputs :: "int \<Rightarrow> store \<Rightarrow> store" where
  "delete_inputs f s =
     s\<lparr>tx_inputs :=
         filter (\<lambda>i. in_txid i \<notin> set (map txid (filter (\<lambda>t. block_height t > f)
                                                 (transactions s))))
           (tx_inputs s)\<rparr>"

definition delete_outputs :: "int \<Rightarrow> store \<Rightarrow> store" where
  "delete_outputs f s =
     s\<lparr>tx_outputs :=
         filter (\<lambda>r. out_txid r \<notin> set (map txid (filter (\<lambda>t. block_height t > f)
                                                  (transactions s))))
           (tx_outputs s)\<rparr>"

fun apply_statement :: "statement \<Rightarrow> store \<Rightarrow> store" where
  "apply_statement (InsertBlock r) s = replace_block r s"
| "apply_statement (InsertTransaction r) s = replace_transaction r s"
| "apply_statement (InsertInput r) s = append_input r s"
| "apply_statement (InsertOutput r) s = append_output r s"
| "apply_statement (DeleteBlocks f) s = delete_blocks f s"
| "apply_statement (DeleteTransactions f) s = delete_transactions f s"
| "apply_statement (DeleteInputs f) s = delete_inputs f s"
| "apply_statement (DeleteOutputs f) s = delete_outputs f s"
| "apply_statement (SelectHeight p) s = s"
| "apply_statement (SelectHash k) s = s"
| "apply_statement Commit s = s"

text \<open>The integers a statement binds to its placeholders.\<close>

fun bound_integers :: "statement \<Rightarrow> int list" where
  "bound_integers (InsertBlock r) = [height r, time r]"
| "bound_integers (InsertTransaction r) = [block_height r, block_time r]"
| "bound_integers (InsertInput r) = [in_vout r, in_sequence r, in_prevout_n r]"
| "bound_integers (InsertOutput r) = [out_n r]"
| "bound_integers (DeleteBlocks f) = [f]"
| "bound_integers (DeleteTransactions f) = [f]"
| "bound_integers (DeleteInputs f) = [f]"
| "bound_integers (DeleteOutputs f) = [f]"
| "bound_integers (SelectHeight p) = []"
| "bound_integers (SelectHash k) = [k]"
| "bound_integers Commit = []"

definition fits_int64 :: "int \<Rightarrow> bool" where
  "fits_int64 n = (- 9223372036854775808 \<le> n \<and> n \<le> 9223372036854775807)"

text \<open>
  \<open>conn.execute\<close>: the exception, if any, and the connection after the call.  A statement
  that raises changes nothing.
\<close>

definition execute :: "statement \<Rightarrow> conn \<Rightarrow> error option \<times> conn" where
  "execute st c =
     (if \<not> list_all fits_int64 (bound_integers st) then (Some OverflowError, c)
      else if refuses c (working c) st then (Some DatabaseError, c)
      else (None, c\<lparr>working := apply_statement st (working c)\<rparr>))"

text \<open>The exception, if any, of a query; its rows are read off the working copy.\<close>

definition raised :: "statement \<Rightarrow> conn \<Rightarrow> error option" where
  "raised st c = fst (execute st c)"

text \<open>Statements run one after another; the first exception ends the run.\<close>

fun execute_all :: "statement list \<Rightarrow> conn \<Rightarrow> error option \<times> conn" where
  "execute_all [] c = (None, c)"
| "execute_all (st # sts) c =
     (case execute st c of
        (Some e, c') \<Rightarrow> (Some e, c')
      | (None, c') \<Rightarrow> execute_all sts c')"

section \<open>Checkpoint\<close>

text \<open>\<open>SELECT MAX(height) FROM blocks\<close>: NULL on an empty table.\<close>

definition max_height :: "store \<Rightarrow> int option" where
  "max_height s =
     (case map height (blocks s) of [] \<Rightarrow> None | h # hs \<Rightarrow> Some (fold max hs h))"

text \<open>
  \<open>get_db_latest_height\<close> opens its own connection, so it reads the committed store:
  \<open>return result['max_height'] if result and result['max_height'] else -1\<close>.
  The condition is Python truthiness: \<open>None\<close> and \<open>0\<close> are both false.
\<close>

definition get_db_latest_height :: "store \<Rightarrow> int" where
  "get_db_latest_height s =
     (case max_height s of None \<Rightarrow> - 1 | Some m \<Rightarrow> if m \<noteq> 0 then m else - 1)"

section \<open>Ingestion\<close>

text \<open>\<open>d.get(k, default)\<close>.\<close>

definition get_or :: "'a option \<Rightarrow> 'a \<Rightarrow> 'a" where
  "get_or v d = (case v of None \<Rightarrow> d | Some x \<Rightarrow> x)"

definition no_prevout :: prevout_data where
  "no_prevout = \<lparr>po_hash = None, po_n = None\<rparr>"

definition no_script :: script_data where
  "no_script = \<lparr>spk_type = None, spk_addresses = None\<rparr>"

text \<open>The value tuples that \<open>insert_input\<close> and \<open>insert_output\<close> bind to their INSERT.\<close>

definition input_values :: "string \<Rightarrow> vin_data \<Rightarrow> input_row" where
  "input_values t vin =
     \<lparr>in_txid = t,
      in_vout = get_or (vin_vout vin) 0,
      in_sequence = get_or (vin_sequence vin) 0,
      in_coinbase = get_or (vin_coinbase vin) '''',
      in_prevout_hash = get_or (po_hash (get_or (vin_prevout vin) no_prevout)) '''',
      in_prevout_n = get_or (po_n (get_or (vin_prevout vin) no_prevout)) 0\<rparr>"

definition output_values :: "string \<Rightarrow> vout_data \<Rightarrow> output_row" where
  "output_values t vout =
     \<lparr>out_txid = t,
      out_n = get_or (vout_n vout) 0,
      out_type = get_or (spk_type (get_or (vout_scriptPubKey vout) no_script)) '''',
      out_addresses = get_or (spk_addresses (get_or (vout_scriptPubKey vout) no_script)) []\<rparr>"

text \<open>
  \<open>insert_input\<close> and \<open>insert_output\<close>: one INSERT each; the handler logs and
  re-raises.
\<close>

definition insert_input :: "conn \<Rightarrow> vin_data \<Rightarrow> string \<Rightarrow> error option \<times> conn" where
  "insert_input c vin t = execute (InsertInput (input_values t vin)) c"

definition insert_output :: "conn \<Rightarrow> vout_data \<Rightarrow> string \<Rightarrow> error option \<times> conn" where
  "insert_output c vout t = execute (InsertOutput (output_values t vout)) c"

text \<open>The loops \<open>for vin in tx_data['vin']\<close> and \<open>for vout in tx_data['vout']\<close>.\<close>

fun insert_inputs :: "conn \<Rightarrow> vin_data list \<Rightarrow> string \<Rightarrow> error option \<times> conn" where
  "insert_inputs c [] t = (None, c)"
| "insert_inputs c (vin # vins) t =
     (case insert_input c vin t of
        (Some e, c') \<Rightarrow> (Some e, c')
      | (None, c') \<Rightarrow> insert_inputs c' vins t)"

fun insert_outputs :: "conn \<Rightarrow> vout_data list \<Rightarrow> string \<Rightarrow> error option \<times> conn" where
  "insert_outputs c [] t = (None, c)"
| "insert_outputs c (vout # vouts) t =
     (case insert_output c vout t of
        (Some e, c') \<Rightarrow> (Some e, c')
      | (None, c') \<Rightarrow> insert_outputs c' vouts t)"

text \<open>The value tuples that \<open>insert_transaction\<close> and \<open>insert_block\<close> bind.\<close>

definition transaction_values :: "string \<Rightarrow> string \<Rightarrow> int \<Rightarrow> int \<Rightarrow> transaction_row" where
  "transaction_values t b_hash b_height b_time =
     \<lparr>txid = t, block_hash = b_hash, block_height = b_height, block_time = b_time\<rparr>"

definition block_values :: "block_data \<Rightarrow> string \<Rightarrow> int \<Rightarrow> block_row" where
  "block_values block h ht =
     \<lparr>hash = h, height = ht, time = get_or (bd_time block) 0,
      previousblockhash = get_or (bd_previousblockhash block) ''''\<rparr>"

text \<open>
  \<open>insert_transaction\<close>: \<open>tx_data['txid']\<close> raises KeyError before anything is written.
  The handler logs (reading \<open>tx_data['txid']\<close> again, which raises the same KeyError when
  the key is absent) and re-raises.  The result pairs the exception, if any, with the
  connection as the call left it.
\<close>

definition insert_transaction ::
  "conn \<Rightarrow> tx_data \<Rightarrow> string \<Rightarrow> int \<Rightarrow> int \<Rightarrow> error option \<times> conn" where
  "insert_transaction c tx b_hash b_height b_time =
     (case td_txid tx of
        None \<Rightarrow> (Some (KeyError ''txid''), c)
      | Some t \<Rightarrow>
          (case execute (InsertTransaction (transaction_values t b_hash b_height b_time)) c of
             (Some e, c1) \<Rightarrow> (Some e, c1)
           | (None, c1) \<Rightarrow>
               (case insert_inputs c1 (get_or (td_vin tx) []) t of
                  (Some e, c2) \<Rightarrow> (Some e, c2)
                | (None, c2) \<Rightarrow> insert_outputs c2 (get_or (td_vout tx) []) t)))"

text \<open>
  The loop \<open>for tx in block_data['tx']\<close> of \<open>insert_block\<close>.  Each iteration evaluates
  \<open>block_data['time']\<close> for the call, which raises KeyError when the key is absent; an
  exception leaves the loop at once.
\<close>

fun insert_transactions ::
  "conn \<Rightarrow> tx_data list \<Rightarrow> string \<Rightarrow> int \<Rightarrow> int option \<Rightarrow> error option \<times> conn" where
  "insert_transactions c [] b_hash b_height b_time = (None, c)"
| "insert_transactions c (tx # txs) b_hash b_height b_time =
     (case b_time of
        None \<Rightarrow> (Some (KeyError ''time''), c)
      | Some t \<Rightarrow>
          (case insert_transaction c tx b_hash b_height t of
             (Some e, c') \<Rightarrow> (Some e, c')
           | (None, c') \<Rightarrow> insert_transactions c' txs b_hash b_height b_time))"

text \<open>
  The \<open>try\<close> body of \<open>insert_block\<close>, \<open>conn.commit()\<close> included.  The row tuple reads
  \<open>block_data['hash']\<close> and \<open>block_data['height']\<close> before the statement runs; with the
  \<open>tx\<close> key absent the loop is skipped.
\<close>

definition insert_block_body :: "conn \<Rightarrow> block_data \<Rightarrow> error option \<times> conn" where
  "insert_block_body c block =
     (case bd_hash block of
        None \<Rightarrow> (Some (KeyError ''hash''), c)
      | Some h \<Rightarrow>
          (case bd_height block of
             None \<Rightarrow> (Some (KeyError ''height''), c)
           | Some ht \<Rightarrow>
               (case execute (InsertBlock (block_values block h ht)) c of
                  (Some e, c1) \<Rightarrow> (Some e, c1)
                | (None, c1) \<Rightarrow>
                    (case insert_transactions c1 (get_or (bd_tx block) []) h ht
                            (bd_time block) of
                       (Some e, c2) \<Rightarrow> (Some e, c2)
                     | (None, c2) \<Rightarrow> commit c2))))"

text \<open>
  \<open>insert_block\<close>.  On an exception the handler rolls back, logs and re-raises; the log
  line reads \<open>block_data['height']\<close>, so with that key absent the exception that leaves
  the function is \<open>KeyError('height')\<close>, whatever the body raised.
\<close>

definition insert_block :: "conn \<Rightarrow> block_data \<Rightarrow> error option \<times> conn" where
  "insert_block c block =
     (case insert_block_body c block of
        (None, c') \<Rightarrow> (None, c')
      | (Some e, c') \<Rightarrow>
          (Some (case bd_height block of None \<Rightarrow> KeyError ''height'' | Some ht \<Rightarrow> e),
           rollback c'))"

text \<open>The rows a transaction of the payload stands for.\<close>

definition tx_input_rows :: "tx_data \<Rightarrow> input_row list" where
  "tx_input_rows tx =
     (case td_txid tx of
        None \<Rightarrow> []
      | Some t \<Rightarrow> map (input_values t) (get_or (td_vin tx) []))"

definition tx_output_rows :: "tx_data \<Rightarrow> output_row list" where
  "tx_output_rows tx =
     (case td_txid tx of
        None \<Rightarrow> []
      | Some t \<Rightarrow> map (output_values t) (get_or (td_vout tx) []))"

text \<open>
  What \<open>insert_block\<close> reads with a subscript: \<open>hash\<close> and \<open>height\<close>, \<open>time\<close> once per
  transaction, and \<open>txid\<close> of every transaction.  A payload with these keys raises no
  KeyError.
\<close>

definition complete_payload :: "block_data \<Rightarrow> bool" where
  "complete_payload block =
     (bd_hash block \<noteq> None \<and> bd_height block \<noteq> None
      \<and> (get_or (bd_tx block) [] = [] \<or> bd_time block \<noteq> None)
      \<and> list_all (\<lambda>tx. td_txid tx \<noteq> None) (get_or (bd_tx block) []))"

text \<open>The integers that the statements of a payload bind.\<close>

definition tx_integers :: "tx_data \<Rightarrow> int list" where
  "tx_integers tx =
     concat (map (\<lambda>r. bound_integers (InsertInput r)) (tx_input_rows tx))
     @ concat (map (\<lambda>r. bound_integers (InsertOutput r)) (tx_output_rows tx))"

definition payload_integers :: "block_data \<Rightarrow> int list" where
  "payload_integers block =
     get_or (bd_height block) 0 # get_or (bd_time block) 0
     # concat (map tx_integers (get_or (bd_tx block) []))"

section \<open>Reorganisation handling\<close>

text \<open>\<open>SELECT height FROM blocks WHERE hash = ?\<close> and \<open>fetchone()\<close>.\<close>

definition select_height_by_hash :: "store \<Rightarrow> string \<Rightarrow> int option" where
  "select_height_by_hash s p = map_option height (find (\<lambda>b. hash b = p) (blocks s))"

text \<open>\<open>SELECT hash FROM blocks WHERE height = ?\<close> and \<open>fetchone()\<close>.\<close>

definition select_hash_by_height :: "store \<Rightarrow> int \<Rightarrow> string option" where
  "select_hash_by_height s k = map_option hash (find (\<lambda>b. height b = k) (blocks s))"

text \<open>
  The \<open>while fork_height >= 0\<close> loop of \<open>handle_reorg\<close>: every iteration runs its
  query, which can raise and end the loop; otherwise the value returned is \<open>fork_height\<close>
  when the loop is left.
\<close>

function find_fork :: "conn \<Rightarrow> string \<Rightarrow> int \<Rightarrow> error + int" where
  "find_fork c prev_hash fork_height =
     (if fork_height \<ge> 0
      then (case raised (SelectHash fork_height) c of
              Some e \<Rightarrow> Inl e
            | None \<Rightarrow>
                if select_hash_by_height (working c) fork_height = Some prev_hash
                then Inr fork_height
                else find_fork c prev_hash (fork_height - 1))
      else Inr fork_height)"
  by pat_completeness auto
termination
  by (relation "measure (\<lambda>(c, p, k). nat (k + 1))") auto

declare find_fork.simps [simp del]

text \<open>
  The four DELETE statements, in the order the source issues them, and their joint
  effect on a store when none of them raises.
\<close>

definition delete_statements :: "int \<Rightarrow> statement list" where
  "delete_statements f = [DeleteBlocks f, DeleteTransactions f, DeleteInputs f, DeleteOutputs f]"

definition delete_after :: "int \<Rightarrow> store \<Rightarrow> store" where
  "delete_after f s = fold apply_statement (delete_statements f) s"

text \<open>
  \<open>handle_reorg\<close>.  Every exception inside the \<open>try\<close> is caught: the handler logs, rolls
  back, and the function returns False.  That covers a query that raises (the
  OverflowError of \<open>SELECT ... WHERE height = ?\<close> when the height cannot be bound
  included), a missing \<open>height\<close> key (KeyError in the comparison when the parent row
  exists, in the warning message otherwise), and a DELETE or the commit that raises.
\<close>

definition handle_reorg :: "conn \<Rightarrow> block_data \<Rightarrow> bool \<times> conn" where
  "handle_reorg c new_block =
     (case bd_previousblockhash new_block of
        None \<Rightarrow> (False, c)
      | Some prev_hash \<Rightarrow>
          if prev_hash = [] then (False, c)
          else (case raised (SelectHeight prev_hash) c of
                  Some e \<Rightarrow> (False, rollback c)
                | None \<Rightarrow>
                    (case bd_height new_block of
                       None \<Rightarrow> (False, rollback c)
                     | Some h \<Rightarrow>
                         if select_height_by_hash (working c) prev_hash = Some (h - 1)
                         then (False, c)
                         else (case find_fork c prev_hash (h - 1) of
                                 Inl e \<Rightarrow> (False, rollback c)
                               | Inr fork_height \<Rightarrow>
                                   if fork_height \<ge> 0
                                   then (case execute_all (delete_statements fork_height) c of
                                           (Some e, c1) \<Rightarrow> (False, rollback c1)
                                         | (None, c1) \<Rightarrow>
                                             (case commit c1 of
                                                (Some e, c2) \<Rightarrow> (False, rollback c2)
                                              | (None, c2) \<Rightarrow> (True, c2)))
                                   else (False, c)))))"

section \<open>Sync loop\<close>

text \<open>The three RPC methods the ETL calls; \<open>Inl\<close> is the exception \<open>rpc_call\<close> raises.\<close>

record remote =
  getblockchaininfo :: "error + int"
  getblockhash :: "int \<Rightarrow> error + string"
  getblock :: "string \<Rightarrow> error + block_data"

datatype outcome = Synced | Failed error

text \<open>
  \<open>current_height = start_height or self.get_db_latest_height() + 1\<close> and the
  \<open>if max_blocks:\<close> that follows; both test truthiness.
\<close>

definition current_height :: "store \<Rightarrow> int option \<Rightarrow> int" where
  "current_height s start_height =
     (case start_height of
        None \<Rightarrow> get_db_latest_height s + 1
      | Some n \<Rightarrow> if n \<noteq> 0 then n else get_db_latest_height s + 1)"

definition end_height :: "int \<Rightarrow> int option \<Rightarrow> int \<Rightarrow> int" where
  "end_height cur max_blocks latest_height =
     (case max_blocks of
        None \<Rightarrow> latest_height
      | Some n \<Rightarrow> if n \<noteq> 0 then min (cur + n - 1) latest_height else latest_height)"

text \<open>
  One iteration of the \<open>for height in range(...)\<close> loop: the inner \<open>try\<close> with its
  \<open>except Exception: ... continue\<close>.  The outcome is what the iteration logs.
\<close>

definition sync_height :: "remote \<Rightarrow> conn \<Rightarrow> int \<Rightarrow> outcome \<times> conn" where
  "sync_height r c h =
     (case getblockhash r h of
        Inl e \<Rightarrow> (Failed e, c)
      | Inr bh \<Rightarrow>
          (case getblock r bh of
             Inl e \<Rightarrow> (Failed e, c)
           | Inr block \<Rightarrow>
               (case insert_block (snd (handle_reorg c block)) block of
                  (None, c') \<Rightarrow> (Synced, c')
                | (Some e, c') \<Rightarrow> (Failed e, c'))))"

fun sync_range :: "remote \<Rightarrow> conn \<Rightarrow> int list \<Rightarrow> (int \<times> outcome) list \<times> conn" where
  "sync_range r c [] = ([], c)"
| "sync_range r c (h # hs) =
     (case sync_height r c h of
        (out, c1) \<Rightarrow> (case sync_range r c1 hs of (trace, c2) \<Rightarrow> ((h, out) # trace, c2)))"

text \<open>
  \<open>sync_blocks\<close> on a database that holds the store \<open>s\<close> and raises as \<open>db\<close> says:
  the list of heights attempted with their outcomes, and the store a fresh connection
  sees after \<open>conn.close()\<close>.  Only a failing \<open>getblockchaininfo\<close> makes the call itself
  raise.
\<close>

definition sync_blocks ::
  "(store \<Rightarrow> statement \<Rightarrow> bool) \<Rightarrow> remote \<Rightarrow> store \<Rightarrow> int option \<Rightarrow> int option
   \<Rightarrow> error + ((int \<times> outcome) list \<times> store)" where
  "sync_blocks db r s start_height max_blocks =
     (case getblockchaininfo r of
        Inl e \<Rightarrow> Inl e
      | Inr latest_height \<Rightarrow>
          (let cur = current_height s start_height;
               stop = end_height cur max_blocks latest_height
           in case sync_range r (connect db s) [cur..stop] of
                (trace, c) \<Rightarrow> Inr (trace, committed c)))"

section \<open>Consistency auditor\<close>

datatype inconsistency_type = hash_mismatch | prev_hash_mismatch

datatype status = healthy | inconsistent

text \<open>
  An entry of \<open>inconsistencies\<close>: \<open>inc_db\<close> is the \<open>db_hash\<close> or \<open>db_prev_hash\<close> field,
  \<open>inc_bitcoind\<close> the \<open>bitcoind_hash\<close> or \<open>bitcoind_prev_hash\<close> field.
\<close>

record inconsistency =
  inc_height :: int
  inc_type :: inconsistency_type
  inc_db :: string
  inc_bitcoind :: string

record bitcoind_block =
  bc_height :: int
  bc_hash :: string
  bc_previousblockhash :: string
  bc_time :: int

record report =
  rp_start_height :: int
  rp_end_height :: int
  rp_total :: nat
  rp_percentage :: rat
  rp_total_inconsistencies :: nat
  rp_missing_count :: nat
  rp_inconsistencies :: "inconsistency list"
  rp_missing_blocks :: "int list"
  rp_status :: status

text \<open>
  The body of the first loop of \<open>check_block_consistency\<close>: two RPC calls; on any
  exception the height is logged and skipped.
\<close>

definition fetch_bitcoind_block :: "remote \<Rightarrow> int \<Rightarrow> bitcoind_block option" where
  "fetch_bitcoind_block r h =
     (case getblockhash r h of
        Inl e \<Rightarrow> None
      | Inr bh \<Rightarrow>
          (case getblock r bh of
             Inl e \<Rightarrow> None
           | Inr info \<Rightarrow>
               Some \<lparr>bc_height = h, bc_hash = bh,
                     bc_previousblockhash = get_or (bd_previousblockhash info) '''',
                     bc_time = get_or (bd_time info) 0\<rparr>))"

text \<open>The dictionary \<open>bitcoind_blocks\<close>, as the list of its items in insertion order.\<close>

definition bitcoind_blocks :: "remote \<Rightarrow> int list \<Rightarrow> (int \<times> bitcoind_block) list" where
  "bitcoind_blocks r hs =
     concat (map (\<lambda>h. case fetch_bitcoind_block r h of None \<Rightarrow> [] | Some b \<Rightarrow> [(h, b)]) hs)"

text \<open>
  The dictionary \<open>db_blocks\<close> built from \<open>SELECT ... WHERE height >= ?\<close>, as a lookup.
  The \<open>height\<close> column is unique, so a key has at most one row.
\<close>

definition db_blocks :: "store \<Rightarrow> int \<Rightarrow> int \<Rightarrow> block_row option" where
  "db_blocks s start k = find (\<lambda>b. height b = k) (filter (\<lambda>b. height b \<ge> start) (blocks s))"

text \<open>
  One iteration of the comparison loop: the entries it appends to \<open>inconsistencies\<close> and
  to \<open>missing_blocks\<close>.
\<close>

definition check_height ::
  "(int \<Rightarrow> block_row option) \<Rightarrow> (int \<Rightarrow> bitcoind_block option) \<Rightarrow> int \<Rightarrow> int
   \<Rightarrow> inconsistency list \<times> int list" where
  "check_height db btc start h =
     (case db h of
        None \<Rightarrow> ([], [h])
      | Some db_block \<Rightarrow>
          (case btc h of
             None \<Rightarrow> ([], [])
           | Some btc_block \<Rightarrow>
               ((if hash db_block \<noteq> bc_hash btc_block
                 then [\<lparr>inc_height = h, inc_type = hash_mismatch,
                        inc_db = hash db_block, inc_bitcoind = bc_hash btc_block\<rparr>]
                 else [])
                @
                (if h > start
                 then (case db (h - 1) of
                         None \<Rightarrow> []
                       | Some db_prev \<Rightarrow>
                           (case btc (h - 1) of
                              None \<Rightarrow> []
                            | Some btc_prev \<Rightarrow>
                                if hash db_prev \<noteq> bc_previousblockhash btc_block
                                then [\<lparr>inc_height = h, inc_type = prev_hash_mismatch,
                                       inc_db = hash db_prev,
                                       inc_bitcoind = bc_previousblockhash btc_block\<rparr>]
                                else []))
                 else []),
                [])))"

fun compare_blocks ::
  "(int \<Rightarrow> block_row option) \<Rightarrow> (int \<Rightarrow> bitcoind_block option) \<Rightarrow> int \<Rightarrow> int list
   \<Rightarrow> inconsistency list \<times> int list" where
  "compare_blocks db btc start [] = ([], [])"
| "compare_blocks db btc start (h # hs) =
     (case check_height db btc start h of
        (i1, m1) \<Rightarrow> (case compare_blocks db btc start hs of (i2, m2) \<Rightarrow> (i1 @ i2, m1 @ m2)))"

text \<open>
  The percentage is computed in binary floating point.  A double is kept as the rational
  it denotes; \<open>to_double\<close> rounds a rational to the nearest double (53-bit significand,
  ties to even), which is what a correctly rounded operation returns.  The exponent range
  is not modelled: the quotients and percentages of the audit are far inside it.
\<close>

definition round_half_even :: "rat \<Rightarrow> int" where
  "round_half_even y =
     (let f = \<lfloor>y\<rfloor>; d = y - of_int f
      in if d < 1 / 2 then f else if d > 1 / 2 then f + 1 else if even f then f else f + 1)"

text \<open>For \<open>x > 0\<close>, the exponent \<open>e\<close> with \<open>2 ^ e \<le> x < 2 ^ (e + 1)\<close>.\<close>

definition floor_log2 :: "rat \<Rightarrow> int" where
  "floor_log2 x =
     (case quotient_of x of
        (p, q) \<Rightarrow> (let d = bitlen p - bitlen q in if 2 powi d \<le> x then d else d - 1))"

definition to_double :: "rat \<Rightarrow> rat" where
  "to_double x =
     (if x = 0 then 0
      else (let u = 2 powi (floor_log2 \<bar>x\<bar> - 52) in of_int (round_half_even (x / u)) * u))"

text \<open>
  \<open>round(x, 2)\<close> on a float: the exact value of \<open>x\<close> is rounded to two decimals, a tie to
  the even one, and the result is the double nearest to that decimal.
\<close>

definition round2 :: "rat \<Rightarrow> rat" where
  "round2 x = to_double (of_int (round_half_even (x * 100)) / 100)"

text \<open>
  \<open>(total - len(inconsistencies)) / total * 100\<close>: a correctly rounded division of two
  integers, then a correctly rounded product; the integer 0 when nothing was checked.
\<close>

definition consistency_percentage :: "nat \<Rightarrow> nat \<Rightarrow> rat" where
  "consistency_percentage checked n =
     (if checked > 0
      then to_double (to_double ((of_nat checked - of_nat n) / of_nat checked) * 100)
      else 0)"

text \<open>
  \<open>check_block_consistency\<close>.  An empty \<open>blocks\<close> table raises; every other path
  returns the report.
\<close>

definition check_block_consistency :: "remote \<Rightarrow> store \<Rightarrow> int \<Rightarrow> error + report" where
  "check_block_consistency r s num_blocks =
     (case max_height s of
        None \<Rightarrow> Inl NoBlocksFound
      | Some db_latest_height \<Rightarrow>
          (let start_height = max 0 (db_latest_height - num_blocks + 1);
               hs = [start_height..db_latest_height];
               btc = bitcoind_blocks r hs
           in case compare_blocks (db_blocks s start_height) (map_of btc) start_height hs of
                (incs, missing) \<Rightarrow>
                  Inr \<lparr>rp_start_height = start_height,
                       rp_end_height = db_latest_height,
                       rp_total = length btc,
                       rp_percentage =
                         round2 (consistency_percentage (length btc) (length incs)),
                       rp_total_inconsistencies = length incs,
                       rp_missing_count = length missing,
                       rp_inconsistencies = incs,
                       rp_missing_blocks = missing,
                       rp_status = (if length incs = 0 then healthy else inconsistent)\<rparr>))"

section \<open>The fork-point search as the specification words it\<close>

text \<open>
  Walk backward from \<open>k\<close> down to \<open>start\<close>; at each height compare the remote hash at that
  height with the locally stored hash at that height; the first height where they agree
  is the fork point, and falling below \<open>start\<close> is "no fork point".
\<close>

function spec_fork_search :: "remote \<Rightarrow> store \<Rightarrow> int \<Rightarrow> int \<Rightarrow> int option" where
  "spec_fork_search r s start k =
     (if k < start then None
      else if (case getblockhash r k of
                 Inl e \<Rightarrow> False
               | Inr x \<Rightarrow> select_hash_by_height s k = Some x)
      then Some k
      else spec_fork_search r s start (k - 1))"
  by pat_completeness auto
termination
  by (relation "measure (\<lambda>(r, s, start, k). nat (k - start + 1))") auto

declare spec_fork_search.simps [simp del]

section \<open>Example chains\<close>

text \<open>A node serving a fixed chain, and the rows and payloads of a linked chain of hashes.\<close>

definition node :: "block_data list \<Rightarrow> remote" where
  "node chain =
     \<lparr>getblockchaininfo = Inr (int (length chain) - 1),
      getblockhash = (\<lambda>h. case find (\<lambda>b. bd_height b = Some h) chain of
                            None \<Rightarrow> Inl (RPCError ''Block height out of range'')
                          | Some b \<Rightarrow> (case bd_hash b of
                                         None \<Rightarrow> Inl (RPCError ''no hash'')
                                       | Some x \<Rightarrow> Inr x)),
      getblock = (\<lambda>x. case find (\<lambda>b. bd_hash b = Some x) chain of
                        None \<Rightarrow> Inl (RPCError ''Block not found'')
                      | Some b \<Rightarrow> Inr b)\<rparr>"

definition payload :: "int \<Rightarrow> string \<Rightarrow> string \<Rightarrow> tx_data list \<Rightarrow> block_data" where
  "payload h x p txs =
     \<lparr>bd_hash = Some x, bd_height = Some h, bd_time = Some (1000 + h),
      bd_previousblockhash = (if h = 0 then None else Some p), bd_tx = Some txs\<rparr>"

definition row :: "int \<Rightarrow> string \<Rightarrow> string \<Rightarrow> block_row" where
  "row h x p = \<lparr>hash = x, height = h, time = 1000 + h, previousblockhash = p\<rparr>"

definition coinbase_vin :: vin_data where
  "coinbase_vin =
     \<lparr>vin_vout = None, vin_sequence = Some 4294967295, vin_coinbase = Some ''04ffff'',
      vin_prevout = None\<rparr>"

definition pay_vout :: "int \<Rightarrow> vout_data" where
  "pay_vout n =
     \<lparr>vout_n = Some n,
      vout_scriptPubKey = Some \<lparr>spk_type = Some ''pubkey'', spk_addresses = None\<rparr>\<rparr>"

definition coinbase_tx :: "string \<Rightarrow> tx_data" where
  "coinbase_tx t =
     \<lparr>td_txid = Some t, td_vin = Some [coinbase_vin], td_vout = Some [pay_vout 0, pay_vout 1]\<rparr>"

text \<open>
  A local chain \<open>a0, a1, a2\<close>, and a remote chain that shares \<open>a0, a1\<close> and continues
  \<open>b2, b3, b4\<close>; blocks without transactions.
\<close>

definition localA :: store where
  "localA =
     \<lparr>blocks = [row 0 ''a0'' '''', row 1 ''a1'' ''a0'', row 2 ''a2'' ''a1''],
      transactions = [], tx_inputs = [], tx_outputs = []\<rparr>"

definition chainB :: "block_data list" where
  "chainB =
     [payload 0 ''a0'' '''' [], payload 1 ''a1'' ''a0'' [], payload 2 ''b2'' ''a1'' [],
      payload 3 ''b3'' ''b2'' [], payload 4 ''b4'' ''b3'' []]"

definition localAB3 :: store where
  "localAB3 = localA\<lparr>blocks := blocks localA @ [row 3 ''b3'' ''b2'']\<rparr>"

text \<open>
  A local chain \<open>c0, c1, c2\<close> that shares no block with the remote chain, and the stores
  that hold \<open>b3\<close> and then \<open>b4\<close> on top of it.
\<close>

definition localC :: store where
  "localC =
     \<lparr>blocks = [row 0 ''c0'' '''', row 1 ''c1'' ''c0'', row 2 ''c2'' ''c1''],
      transactions = [], tx_inputs = [], tx_outputs = []\<rparr>"

definition localCB3 :: store where
  "localCB3 = localC\<lparr>blocks := blocks localC @ [row 3 ''b3'' ''b2'']\<rparr>"

definition localCB4 :: store where
  "localCB4 = localCB3\<lparr>blocks := blocks localCB3 @ [row 4 ''b4'' ''b3'']\<rparr>"

text \<open>A genesis block with one coinbase transaction: one input, two outputs.\<close>

definition genesis_payload :: block_data where
  "genesis_payload = payload 0 ''a0'' '''' [coinbase_tx ''t0'']"

text \<open>The store after ingesting two blocks, each with one coinbase transaction.\<close>

definition two_block_store :: store where
  "two_block_store =
     committed (snd (insert_block (snd (insert_block (connect reliable empty_store)
                                          genesis_payload))
                       (payload 1 ''a1'' ''a0'' [coinbase_tx ''t1''])))"

text \<open>A store whose only block is the genesis block.\<close>

definition genesis_store :: store where
  "genesis_store = empty_store\<lparr>blocks := [row 0 ''a0'' '''']\<rparr>"

text \<open>A payload whose second transaction has no \<open>txid\<close>.\<close>

definition broken_payload :: block_data where
  "broken_payload =
     payload 0 ''a0'' '''' [coinbase_tx ''t0'', \<lparr>td_txid = None, td_vin = None, td_vout = None\<rparr>]"

text \<open>A database that raises on the INSERT of an output whose index is 1.\<close>

definition refuses_outputs :: "store \<Rightarrow> statement \<Rightarrow> bool" where
  "refuses_outputs s st = (case st of InsertOutput r \<Rightarrow> out_n r = 1 | _ \<Rightarrow> False)"

text \<open>The remote chain \<open>a0, a1, a2\<close>, and a local store that lacks height 1.\<close>

definition chainA :: "block_data list" where
  "chainA = [payload 0 ''a0'' '''' [], payload 1 ''a1'' ''a0'' [], payload 2 ''a2'' ''a1'' []]"

definition gap_store :: store where
  "gap_store = empty_store\<lparr>blocks := [row 0 ''a0'' '''', row 2 ''a2'' ''a1'']\<rparr>"

text \<open>
  A remote chain of ten linked blocks \<open>h0 .. h9\<close>, and the local store that mirrors it
  except for the hash stored at height \<open>m\<close>.
\<close>

definition hashes10 :: "string list" where
  "hashes10 = [''h0'', ''h1'', ''h2'', ''h3'', ''h4'', ''h5'', ''h6'', ''h7'', ''h8'', ''h9'']"

definition remote_hash :: "int \<Rightarrow> string" where
  "remote_hash k = hashes10 ! nat k"

definition chain10 :: "block_data list" where
  "chain10 = map (\<lambda>k. payload k (remote_hash k) (remote_hash (k - 1)) [])
               [0, 1, 2, 3, 4, 5, 6, 7, 8, 9]"

definition local10 :: "int \<Rightarrow> store" where
  "local10 m =
     empty_store\<lparr>blocks :=
       map (\<lambda>k. row k (if k = m then ''xx'' else remote_hash k)
                      (if k = 0 then '''' else remote_hash (k - 1)))
         [0, 1, 2, 3, 4, 5, 6, 7, 8, 9]\<rparr>"

section \<open>Checkpoint query\<close>

lemma fold_max_eq_Max: "fold max hs (h::int) = Max (set (h # hs))"
  by (metis Max.set_eq_fold)

lemma max_height_eq_Max:
  assumes "blocks s \<noteq> []"
  shows "max_height s = Some (Max (height ` set (blocks s)))"
proof -
  obtain b bs where "blocks s = b # bs"
    using assms by (cases "blocks s") auto
  then show ?thesis
    by (simp add: max_height_def fold_max_eq_Max)
qed

lemma get_db_latest_height_nonzero:
  assumes "blocks s \<noteq> []" and "Max (height ` set (blocks s)) \<noteq> 0"
  shows "get_db_latest_height s = Max (height ` set (blocks s))"
  using assms(2) by (simp add: get_db_latest_height_def max_height_eq_Max [OF assms(1)])

text \<open>
  C9.  The checkpoint query is meant to return the maximum stored height.  On the store
  that holds only the block of height 0 the maximum is 0, but the query answers -1, the
  value it also gives for an empty store: the test \<open>result['max_height']\<close> is false
  for 0.
\<close>

theorem get_db_latest_height_genesis_only:
  "max_height genesis_store = Some 0 \<and> get_db_latest_height genesis_store = - 1
   \<and> get_db_latest_height empty_store = - 1"
  by (simp add: get_db_latest_height_def max_height_def genesis_store_def row_def
      empty_store_def)

section \<open>Re-ingestion\<close>

lemmas insert_defs =
  insert_block_def insert_block_body_def insert_transaction_def insert_input_def
  insert_output_def input_values_def output_values_def transaction_values_def
  block_values_def execute_def commit_def rollback_def connect_def reliable_def
  fits_int64_def replace_block_def replace_transaction_def append_input_def
  append_output_def get_or_def

lemmas example_defs =
  payload_def row_def coinbase_tx_def coinbase_vin_def pay_vout_def no_prevout_def
  no_script_def empty_store_def genesis_payload_def

text \<open>
  C1.  Ingesting the genesis payload (one transaction, one input, two outputs) into an
  empty store and then ingesting the same payload again succeeds both times.  The block
  and transaction rows are replaced, so there is one of each; the input and output rows
  are inserted again, so there are two inputs and four outputs where the payload has one
  and two.
\<close>

theorem reingest_duplicates_inputs_outputs:
  "(let c1 = snd (insert_block (connect reliable empty_store) genesis_payload);
        c2 = snd (insert_block c1 genesis_payload)
    in fst (insert_block (connect reliable empty_store) genesis_payload) = None
       \<and> fst (insert_block c1 genesis_payload) = None
       \<and> length (tx_inputs (committed c1)) = 1 \<and> length (tx_outputs (committed c1)) = 2
       \<and> length (blocks (committed c2)) = 1 \<and> length (transactions (committed c2)) = 1
       \<and> length (tx_inputs (committed c2)) = 2 \<and> length (tx_outputs (committed c2)) = 4)"
  by (simp add: Let_def insert_defs example_defs)

section \<open>Start and end of a sync\<close>

lemma sync_range_heights: "map fst (fst (sync_range r c hs)) = hs"
  by (induction hs arbitrary: c) (simp_all add: case_prod_beta)

lemma sync_blocks_run:
  assumes "getblockchaininfo r = Inr latest"
  shows "sync_blocks db r s start_height max_blocks
         = (case sync_range r (connect db s)
                   [current_height s start_height
                    ..end_height (current_height s start_height) max_blocks latest] of
              (trace, c) \<Rightarrow> Inr (trace, committed c))"
  using assms by (simp add: sync_blocks_def Let_def)

lemma sync_blocks_heights:
  assumes "getblockchaininfo r = Inr latest"
  shows "map_sum id (map fst \<circ> fst) (sync_blocks db r s start_height max_blocks)
         = Inr [current_height s start_height
                ..end_height (current_height s start_height) max_blocks latest]"
  using assms sync_range_heights
  by (simp add: sync_blocks_def Let_def case_prod_beta)

text \<open>
  A start height of 0 and a block limit of 0 are the same call as an absent start height
  and an absent limit.  When the remote reports its tip and the highest stored height is
  not 0, the call with 0 and 0 runs the loop over the heights from that height plus one
  to the tip.
\<close>

lemma sync_blocks_zero_is_absent:
  "sync_blocks db r s (Some 0) max_blocks = sync_blocks db r s None max_blocks"
  "sync_blocks db r s start_height (Some 0) = sync_blocks db r s start_height None"
proof -
  have start: "current_height s (Some 0) = current_height s None"
    by (simp add: current_height_def)
  have stop: "\<And>c l. end_height c (Some 0) l = end_height c None l"
    by (simp add: end_height_def)
  show "sync_blocks db r s (Some 0) max_blocks = sync_blocks db r s None max_blocks"
    unfolding sync_blocks_def start by (rule refl)
  show "sync_blocks db r s start_height (Some 0) = sync_blocks db r s start_height None"
    unfolding sync_blocks_def stop by (rule refl)
qed

lemma sync_blocks_zero_zero:
  assumes "blocks s \<noteq> []" and "Max (height ` set (blocks s)) \<noteq> 0"
    and "getblockchaininfo r = Inr latest"
  shows "sync_blocks db r s (Some 0) (Some 0)
         = (case sync_range r (connect db s) [Max (height ` set (blocks s)) + 1..latest] of
              (trace, c) \<Rightarrow> Inr (trace, committed c))"
proof -
  have cur: "current_height s (Some 0) = Max (height ` set (blocks s)) + 1"
    using get_db_latest_height_nonzero [OF assms(1,2)] by (simp add: current_height_def)
  have fin: "end_height (Max (height ` set (blocks s)) + 1) (Some 0) latest = latest"
    by (simp add: end_height_def)
  show ?thesis
    using sync_blocks_run [OF assms(3), of db s "Some 0" "Some 0"]
    by (simp only: cur fin)
qed

lemma get_db_latest_height_localA: "get_db_latest_height localA = 2"
  by (simp add: get_db_latest_height_def max_height_def localA_def row_def)

lemma node_chainB:
  "getblockchaininfo (node chainB) = Inr 4"
  "getblockhash (node chainB) 3 = Inr ''b3''"
  "getblockhash (node chainB) 4 = Inr ''b4''"
  "getblock (node chainB) ''b3'' = Inr (payload 3 ''b3'' ''b2'' [])"
  "getblock (node chainB) ''b4'' = Inr (payload 4 ''b4'' ''b3'' [])"
  by (simp_all add: node_def chainB_def payload_def)

lemma upto_3_4: "[3..4] = [3, 4::int]"
  by (simp add: upto_rec1)

text \<open>
  C8.  With three blocks stored (heights 0 to 2) and the remote tip at 4, a sync called
  with start height 0 does not start at 0 but at 3, and a block limit of 0 does not end
  it at \<open>min (3 + 0 - 1) 4 = 2\<close> but at 4: the heights attempted are 3 and 4.
\<close>

theorem sync_blocks_ignores_zero_override:
  "current_height localA (Some 0) = 3 \<and> end_height 3 (Some 0) 4 = 4
   \<and> map_sum id (map fst \<circ> fst) (sync_blocks reliable (node chainB) localA (Some 0) (Some 0))
       = Inr [3, 4]"
proof -
  have cur: "current_height localA (Some 0) = 3"
    by (simp add: current_height_def get_db_latest_height_localA)
  have stop: "end_height 3 (Some 0) 4 = 4"
    by (simp add: end_height_def)
  have "map_sum id (map fst \<circ> fst) (sync_blocks reliable (node chainB) localA (Some 0) (Some 0))
        = Inr [3..4]"
    using sync_blocks_heights [OF node_chainB(1), of reliable localA "Some 0" "Some 0"]
    by (simp only: cur stop)
  then show ?thesis
    using cur stop by (simp add: upto_3_4)
qed

lemma node_chainA:
  "getblockchaininfo (node chainA) = Inr 2"
  "getblockhash (node chainA) 0 = Inr ''a0''"
  "getblockhash (node chainA) 1 = Inr ''a1''"
  "getblockhash (node chainA) 2 = Inr ''a2''"
  "getblock (node chainA) ''a0'' = Inr (payload 0 ''a0'' '''' [])"
  "getblock (node chainA) ''a1'' = Inr (payload 1 ''a1'' ''a0'' [])"
  "getblock (node chainA) ''a2'' = Inr (payload 2 ''a2'' ''a1'' [])"
  by (simp_all add: node_def chainA_def payload_def)

lemma committed_connect: "committed (connect db s) = s"
  by (simp add: connect_def)

lemma sync_height_genesis_store_0:
  "sync_height (node chainA) (connect reliable genesis_store) 0
   = (Synced, connect reliable genesis_store)"
  by (simp add: sync_height_def node_chainA handle_reorg_def raised_def insert_defs payload_def
      genesis_store_def row_def empty_store_def)

lemma sync_height_genesis_store_1:
  "sync_height (node chainA) (connect reliable genesis_store) 1
   = (Synced, connect reliable (genesis_store\<lparr>blocks := [row 0 ''a0'' '''', row 1 ''a1'' ''a0'']\<rparr>))"
  by (simp add: sync_height_def node_chainA handle_reorg_def raised_def select_height_by_hash_def
      insert_defs payload_def genesis_store_def row_def empty_store_def)

lemma sync_height_genesis_store_2:
  "sync_height (node chainA)
     (connect reliable (genesis_store\<lparr>blocks := [row 0 ''a0'' '''', row 1 ''a1'' ''a0'']\<rparr>)) 2
   = (Synced, connect reliable localA)"
  by (simp add: sync_height_def node_chainA handle_reorg_def raised_def select_height_by_hash_def
      insert_defs payload_def genesis_store_def localA_def row_def empty_store_def)

text \<open>
  C10.  The store holds only the block of height 0, so its checkpoint is 0 and checkpoint
  plus one is 1.  A sync called with start height 0 against a remote tip of 2 treats the
  0 as absent and asks the checkpoint query, which answers -1 for this store: the sync
  starts at 0, not at 1, and ingests the heights 0, 1 and 2.
\<close>

theorem sync_zero_override_restarts_at_genesis:
  "max_height genesis_store = Some 0
   \<and> get_db_latest_height genesis_store = - 1
   \<and> current_height genesis_store (Some 0) = 0
   \<and> sync_blocks reliable (node chainA) genesis_store (Some 0) None
       = Inr ([(0, Synced), (1, Synced), (2, Synced)], localA)"
proof -
  have mx: "max_height genesis_store = Some 0"
    by (simp add: max_height_def genesis_store_def row_def empty_store_def)
  then have db: "get_db_latest_height genesis_store = - 1"
    by (simp add: get_db_latest_height_def)
  then have cur: "current_height genesis_store (Some 0) = 0"
    by (simp add: current_height_def)
  have hs: "[0..2] = [0, 1, 2::int]"
    by (simp add: upto_rec1)
  have "sync_blocks reliable (node chainA) genesis_store (Some 0) None
        = Inr ([(0, Synced), (1, Synced), (2, Synced)], localA)"
    using sync_blocks_run [OF node_chainA(1), of reliable genesis_store "Some 0" None]
    by (simp add: cur end_height_def hs sync_height_genesis_store_0
        sync_height_genesis_store_1 sync_height_genesis_store_2 committed_connect)
  with mx db cur show ?thesis
    by simp
qed

section \<open>Truncation after a fork point\<close>

lemma delete_after_keeps_inputs_outputs:
  "tx_inputs (delete_after f s) = tx_inputs s \<and> tx_outputs (delete_after f s) = tx_outputs s"
  by (simp add: delete_after_def delete_statements_def delete_blocks_def
      delete_transactions_def delete_inputs_def delete_outputs_def filter_empty_conv)

lemma delete_after_blocks_transactions:
  "blocks (delete_after f s) = filter (\<lambda>b. height b \<le> f) (blocks s)
   \<and> transactions (delete_after f s) = filter (\<lambda>t. block_height t \<le> f) (transactions s)"
  by (simp add: delete_after_def delete_statements_def delete_blocks_def
      delete_transactions_def delete_inputs_def delete_outputs_def not_less)

lemma execute_all_reliable:
  assumes "refuses c = reliable"
    and "list_all fits_int64 (concat (map bound_integers sts))"
  shows "execute_all sts c = (None, c\<lparr>working := fold apply_statement sts (working c)\<rparr>)"
  using assms
  by (induction sts arbitrary: c) (simp_all add: execute_def reliable_def)

lemma raised_connect_reliable:
  "list_all fits_int64 (bound_integers st) \<Longrightarrow> raised st (connect reliable s) = None"
  by (simp add: raised_def execute_def connect_def reliable_def)

lemma working_connect: "working (connect db s) = s"
  by (simp add: connect_def)

lemma truncate_reliable:
  assumes "fits_int64 f"
  shows "execute_all (delete_statements f) (connect reliable s)
         = (None, (connect reliable s)\<lparr>working := delete_after f s\<rparr>)"
  using execute_all_reliable [of "connect reliable s" "delete_statements f"] assms
  by (simp add: delete_after_def) (simp add: connect_def delete_statements_def)

text \<open>
  C2.  A store with blocks at heights 0 and 1, each with one transaction, one input and
  two outputs, is truncated after fork point 0 (the incoming block at height 3 names
  \<open>a0\<close> as its parent, and \<open>a0\<close> is stored at height 0).  The block and the transaction
  of height 1 are deleted; the input and the outputs of that transaction stay, because
  the statements that should delete them look the transaction up after it is gone.
\<close>

theorem handle_reorg_orphans_inputs_outputs:
  "map height (blocks two_block_store) = [0, 1]
   \<and> map txid (transactions two_block_store) = [''t0'', ''t1'']
   \<and> map in_txid (tx_inputs two_block_store) = [''t0'', ''t1'']
   \<and> map out_txid (tx_outputs two_block_store) = [''t0'', ''t0'', ''t1'', ''t1'']
   \<and> handle_reorg (connect reliable two_block_store) (payload 3 ''c3'' ''a0'' [])
       = (True, connect reliable (delete_after 0 two_block_store))
   \<and> map height (blocks (delete_after 0 two_block_store)) = [0]
   \<and> map txid (transactions (delete_after 0 two_block_store)) = [''t0'']
   \<and> map in_txid (tx_inputs (delete_after 0 two_block_store)) = [''t0'', ''t1'']
   \<and> map out_txid (tx_outputs (delete_after 0 two_block_store))
       = [''t0'', ''t0'', ''t1'', ''t1'']"
proof -
  have s: "two_block_store =
    \<lparr>blocks = [row 0 ''a0'' '''', row 1 ''a1'' ''a0''],
     transactions = [\<lparr>txid = ''t0'', block_hash = ''a0'', block_height = 0, block_time = 1000\<rparr>,
                     \<lparr>txid = ''t1'', block_hash = ''a1'', block_height = 1, block_time = 1001\<rparr>],
     tx_inputs = tx_inputs two_block_store, tx_outputs = tx_outputs two_block_store\<rparr>"
    by (simp add: two_block_store_def insert_defs example_defs)
  have i: "map in_txid (tx_inputs two_block_store) = [''t0'', ''t1'']"
    by (simp add: two_block_store_def insert_defs example_defs)
  have o: "map out_txid (tx_outputs two_block_store) = [''t0'', ''t0'', ''t1'', ''t1'']"
    by (simp add: two_block_store_def insert_defs example_defs)
  have b: "blocks two_block_store = [row 0 ''a0'' '''', row 1 ''a1'' ''a0'']"
    by (subst s) simp
  have t: "map txid (transactions two_block_store) = [''t0'', ''t1'']"
    "map block_height (transactions two_block_store) = [0, 1]"
    by (subst s, simp)+
  have sel: "select_height_by_hash two_block_store ''a0'' = Some 0"
    by (simp add: select_height_by_hash_def b row_def)
  have ff: "find_fork (connect reliable two_block_store) ''a0'' 2 = Inr 0"
    by (simp add: find_fork.simps raised_connect_reliable fits_int64_def working_connect
        select_hash_by_height_def b row_def)
  have tr: "execute_all (delete_statements 0) (connect reliable two_block_store)
            = (None, (connect reliable two_block_store)
                       \<lparr>working := delete_after 0 two_block_store\<rparr>)"
    by (rule truncate_reliable) (simp add: fits_int64_def)
  have cm: "commit ((connect reliable two_block_store)
                      \<lparr>working := delete_after 0 two_block_store\<rparr>)
            = (None, connect reliable (delete_after 0 two_block_store))"
    by (simp add: commit_def connect_def reliable_def)
  have hr: "handle_reorg (connect reliable two_block_store) (payload 3 ''c3'' ''a0'' [])
            = (True, connect reliable (delete_after 0 two_block_store))"
    by (simp add: handle_reorg_def payload_def raised_connect_reliable working_connect
        sel ff tr cm)
  have db: "map height (blocks (delete_after 0 two_block_store)) = [0]"
    by (simp add: delete_after_blocks_transactions b row_def)
  have dt: "map txid (transactions (delete_after 0 two_block_store)) = [''t0'']"
    by (subst s) (simp add: delete_after_blocks_transactions)
  show ?thesis
    using b t i o hr db dt by (simp add: delete_after_keeps_inputs_outputs row_def)
qed

section \<open>Atomic persistence of a block\<close>

lemma execute_result:
  assumes "execute st c = (res, c')"
  shows "committed c' = committed c \<and> refuses c' = refuses c
         \<and> (res = None \<longrightarrow> working c' = apply_statement st (working c))"
  using assms by (auto simp: execute_def split: if_splits)

lemma execute_reliable:
  assumes "refuses c = reliable" and "list_all fits_int64 (bound_integers st)"
  shows "fst (execute st c) = None"
  using assms by (simp add: execute_def reliable_def)

lemma insert_inputs_result:
  assumes "insert_inputs c vins t = (res, c')"
  shows "committed c' = committed c \<and> refuses c' = refuses c
         \<and> (res = None \<longrightarrow>
              blocks (working c') = blocks (working c)
              \<and> transactions (working c') = transactions (working c)
              \<and> tx_inputs (working c') = tx_inputs (working c) @ map (input_values t) vins
              \<and> tx_outputs (working c') = tx_outputs (working c))"
  using assms
proof (induction vins arbitrary: c)
  case Nil
  then show ?case by simp
next
  case (Cons vin vins)
  obtain r1 c1 where e: "execute (InsertInput (input_values t vin)) c = (r1, c1)"
    by (cases "execute (InsertInput (input_values t vin)) c")
  note e1 = execute_result [OF e]
  show ?case
  proof (cases r1)
    case None
    with Cons.prems e have "insert_inputs c1 vins t = (res, c')"
      by (simp add: insert_input_def)
    from Cons.IH [OF this] e1 None show ?thesis
      by (simp add: append_input_def)
  next
    case (Some x)
    with Cons.prems e have "res = Some x" "c' = c1"
      by (simp_all add: insert_input_def)
    with e1 show ?thesis by simp
  qed
qed

lemma insert_outputs_result:
  assumes "insert_outputs c vouts t = (res, c')"
  shows "committed c' = committed c \<and> refuses c' = refuses c
         \<and> (res = None \<longrightarrow>
              blocks (working c') = blocks (working c)
              \<and> transactions (working c') = transactions (working c)
              \<and> tx_inputs (working c') = tx_inputs (working c)
              \<and> tx_outputs (working c') = tx_outputs (working c) @ map (output_values t) vouts)"
  using assms
proof (induction vouts arbitrary: c)
  case Nil
  then show ?case by simp
next
  case (Cons vout vouts)
  obtain r1 c1 where e: "execute (InsertOutput (output_values t vout)) c = (r1, c1)"
    by (cases "execute (InsertOutput (output_values t vout)) c")
  note e1 = execute_result [OF e]
  show ?case
  proof (cases r1)
    case None
    with Cons.prems e have "insert_outputs c1 vouts t = (res, c')"
      by (simp add: insert_output_def)
    from Cons.IH [OF this] e1 None show ?thesis
      by (simp add: append_output_def)
  next
    case (Some x)
    with Cons.prems e have "res = Some x" "c' = c1"
      by (simp_all add: insert_output_def)
    with e1 show ?thesis by simp
  qed
qed

lemma insert_transaction_result:
  assumes "insert_transaction c tx bh ht bt = (res, c')"
  shows "committed c' = committed c \<and> refuses c' = refuses c
         \<and> (res = None \<longrightarrow>
              (\<exists>t. td_txid tx = Some t
                 \<and> blocks (working c') = blocks (working c)
                 \<and> transactions (working c')
                     = filter (\<lambda>r. txid r \<noteq> t) (transactions (working c))
                       @ [transaction_values t bh ht bt]
                 \<and> tx_inputs (working c') = tx_inputs (working c) @ tx_input_rows tx
                 \<and> tx_outputs (working c') = tx_outputs (working c) @ tx_output_rows tx))"
proof (cases "td_txid tx")
  case None
  with assms show ?thesis
    by (auto simp: insert_transaction_def)
next
  case (Some t)
  obtain r1 c1 where
    e: "execute (InsertTransaction (transaction_values t bh ht bt)) c = (r1, c1)"
    by (cases "execute (InsertTransaction (transaction_values t bh ht bt)) c")
  note e1 = execute_result [OF e]
  show ?thesis
  proof (cases r1)
    case (Some x)
    with assms e \<open>td_txid tx = Some t\<close> have "res = Some x" "c' = c1"
      by (simp_all add: insert_transaction_def)
    with e1 show ?thesis by simp
  next
    case None
    note r1 = None
    obtain r2 c2 where i: "insert_inputs c1 (get_or (td_vin tx) []) t = (r2, c2)"
      by (cases "insert_inputs c1 (get_or (td_vin tx) []) t")
    note i1 = insert_inputs_result [OF i]
    show ?thesis
    proof (cases r2)
      case (Some x)
      with assms e i r1 \<open>td_txid tx = Some t\<close> have "res = Some x" "c' = c2"
        by (simp_all add: insert_transaction_def)
      with e1 i1 show ?thesis by simp
    next
      case None
      with assms e i r1 \<open>td_txid tx = Some t\<close>
      have "insert_outputs c2 (get_or (td_vout tx) []) t = (res, c')"
        by (simp add: insert_transaction_def)
      from insert_outputs_result [OF this] e1 i1 r1 None \<open>td_txid tx = Some t\<close>
      show ?thesis
        by (simp add: replace_transaction_def tx_input_rows_def tx_output_rows_def
            transaction_values_def)
    qed
  qed
qed

lemma insert_transactions_result:
  assumes "insert_transactions c txs bh ht bt = (res, c')"
  shows "committed c' = committed c \<and> refuses c' = refuses c
         \<and> (res = None \<longrightarrow>
              (txs = [] \<or> bt \<noteq> None)
              \<and> (\<exists>ids. map td_txid txs = map Some ids
                 \<and> blocks (working c') = blocks (working c)
                 \<and> transactions (working c')
                     = filter (\<lambda>r. txid r \<notin> set ids) (transactions (working c))
                       @ map (\<lambda>t. transaction_values t bh ht (get_or bt 0)) (remdups ids)
                 \<and> tx_inputs (working c')
                     = tx_inputs (working c) @ concat (map tx_input_rows txs)
                 \<and> tx_outputs (working c')
                     = tx_outputs (working c) @ concat (map tx_output_rows txs)))"
  using assms
proof (induction txs arbitrary: c)
  case Nil
  then show ?case by simp
next
  case (Cons tx txs)
  show ?case
  proof (cases bt)
    case None
    with Cons.prems show ?thesis by auto
  next
    case (Some b)
    obtain r1 c1 where t: "insert_transaction c tx bh ht b = (r1, c1)"
      by (cases "insert_transaction c tx bh ht b")
    note t1 = insert_transaction_result [OF t]
    show ?thesis
    proof (cases r1)
      case (Some x)
      with Cons.prems t \<open>bt = Some b\<close> have "res = Some x" "c' = c1"
        by simp_all
      with t1 show ?thesis by simp
    next
      case None
      with Cons.prems t \<open>bt = Some b\<close>
      have rest: "insert_transactions c1 txs bh ht bt = (res, c')"
        by simp
      note ih = Cons.IH [OF rest]
      show ?thesis
      proof (cases res)
        case (Some x)
        with ih t1 show ?thesis by simp
      next
        case None
        note res = None
        from t1 \<open>r1 = None\<close> obtain x where
          x: "td_txid tx = Some x" "blocks (working c1) = blocks (working c)"
            "transactions (working c1)
               = filter (\<lambda>r. txid r \<noteq> x) (transactions (working c))
                 @ [transaction_values x bh ht b]"
            "tx_inputs (working c1) = tx_inputs (working c) @ tx_input_rows tx"
            "tx_outputs (working c1) = tx_outputs (working c) @ tx_output_rows tx"
          by blast
        from ih res obtain ids where
          ids: "map td_txid txs = map Some ids" "blocks (working c') = blocks (working c1)"
            "transactions (working c')
               = filter (\<lambda>r. txid r \<notin> set ids) (transactions (working c1))
                 @ map (\<lambda>t. transaction_values t bh ht (get_or bt 0)) (remdups ids)"
            "tx_inputs (working c')
               = tx_inputs (working c1) @ concat (map tx_input_rows txs)"
            "tx_outputs (working c')
               = tx_outputs (working c1) @ concat (map tx_output_rows txs)"
          by blast
        have tr: "transactions (working c')
                  = filter (\<lambda>r. txid r \<notin> set (x # ids)) (transactions (working c))
                    @ map (\<lambda>t. transaction_values t bh ht (get_or bt 0)) (remdups (x # ids))"
          unfolding ids(3) x(3)
          by (simp add: transaction_values_def get_or_def \<open>bt = Some b\<close> conj_commute)
        have "map td_txid (tx # txs) = map Some (x # ids)"
          using x(1) ids(1) by simp
        with tr x ids ih t1 res \<open>bt = Some b\<close> show ?thesis
          by (intro conjI impI exI [of _ "x # ids"]) simp_all
      qed
    qed
  qed
qed

lemma insert_inputs_reliable:
  assumes "refuses c = reliable"
    and "list_all fits_int64
           (concat (map (\<lambda>r. bound_integers (InsertInput r)) (map (input_values t) vins)))"
  shows "fst (insert_inputs c vins t) = None"
  using assms
proof (induction vins arbitrary: c)
  case Nil
  show ?case by simp
next
  case (Cons vin vins)
  obtain r1 c1 where e: "execute (InsertInput (input_values t vin)) c = (r1, c1)"
    by (cases "execute (InsertInput (input_values t vin)) c")
  have "r1 = None"
    using execute_reliable [of c "InsertInput (input_values t vin)"] Cons.prems e by simp
  moreover have "refuses c1 = reliable"
    using execute_result [OF e] Cons.prems(1) by simp
  ultimately show ?case
    using Cons.IH [of c1] Cons.prems(2) e by (simp add: insert_input_def)
qed

lemma insert_outputs_reliable:
  assumes "refuses c = reliable"
    and "list_all fits_int64
           (concat (map (\<lambda>r. bound_integers (InsertOutput r)) (map (output_values t) vouts)))"
  shows "fst (insert_outputs c vouts t) = None"
  using assms
proof (induction vouts arbitrary: c)
  case Nil
  show ?case by simp
next
  case (Cons vout vouts)
  obtain r1 c1 where e: "execute (InsertOutput (output_values t vout)) c = (r1, c1)"
    by (cases "execute (InsertOutput (output_values t vout)) c")
  have "r1 = None"
    using execute_reliable [of c "InsertOutput (output_values t vout)"] Cons.prems e by simp
  moreover have "refuses c1 = reliable"
    using execute_result [OF e] Cons.prems(1) by simp
  ultimately show ?case
    using Cons.IH [of c1] Cons.prems(2) e by (simp add: insert_output_def)
qed

lemma insert_transaction_reliable:
  assumes "refuses c = reliable" and "td_txid tx \<noteq> None"
    and "fits_int64 ht" and "fits_int64 bt" and "list_all fits_int64 (tx_integers tx)"
  shows "fst (insert_transaction c tx bh ht bt) = None"
proof -
  from assms(2) obtain t where t: "td_txid tx = Some t"
    by blast
  obtain r1 c1 where
    e: "execute (InsertTransaction (transaction_values t bh ht bt)) c = (r1, c1)"
    by (cases "execute (InsertTransaction (transaction_values t bh ht bt)) c")
  have r1: "r1 = None"
    using execute_reliable [of c "InsertTransaction (transaction_values t bh ht bt)"]
      assms(1,3,4) e by (simp add: transaction_values_def)
  have c1: "refuses c1 = reliable"
    using execute_result [OF e] assms(1) by simp
  obtain r2 c2 where i: "insert_inputs c1 (get_or (td_vin tx) []) t = (r2, c2)"
    by (cases "insert_inputs c1 (get_or (td_vin tx) []) t")
  have r2: "r2 = None"
    using insert_inputs_reliable [OF c1, of t "get_or (td_vin tx) []"] assms(5) i t
    by (simp add: tx_integers_def tx_input_rows_def)
  have c2: "refuses c2 = reliable"
    using insert_inputs_result [OF i] c1 by simp
  have "fst (insert_outputs c2 (get_or (td_vout tx) []) t) = None"
    using insert_outputs_reliable [OF c2, of t "get_or (td_vout tx) []"] assms(5) t
    by (simp add: tx_integers_def tx_output_rows_def)
  with t e r1 i r2 show ?thesis
    by (simp add: insert_transaction_def)
qed

lemma insert_transactions_reliable:
  assumes "refuses c = reliable" and "list_all (\<lambda>tx. td_txid tx \<noteq> None) txs"
    and "txs = [] \<or> bt \<noteq> None"
    and "fits_int64 ht" and "fits_int64 (get_or bt 0)"
    and "list_all fits_int64 (concat (map tx_integers txs))"
  shows "fst (insert_transactions c txs bh ht bt) = None"
  using assms
proof (induction txs arbitrary: c)
  case Nil
  show ?case by simp
next
  case (Cons tx txs)
  from Cons.prems(3) obtain b where b: "bt = Some b"
    by auto
  obtain r1 c1 where t: "insert_transaction c tx bh ht b = (r1, c1)"
    by (cases "insert_transaction c tx bh ht b")
  have r1: "r1 = None"
    using insert_transaction_reliable [of c tx ht b bh] Cons.prems t b
    by (simp add: get_or_def)
  have c1: "refuses c1 = reliable"
    using insert_transaction_result [OF t] Cons.prems(1) by simp
  have "fst (insert_transactions c1 txs bh ht bt) = None"
    using Cons.IH [OF c1] Cons.prems b by simp
  with t r1 b show ?case
    by simp
qed

lemma insert_block_body_reliable:
  assumes "refuses c = reliable" and "complete_payload block"
    and "list_all fits_int64 (payload_integers block)"
  shows "fst (insert_block_body c block) = None"
proof -
  from assms(2) obtain h ht where hh: "bd_hash block = Some h" "bd_height block = Some ht"
    by (auto simp: complete_payload_def)
  have fits: "fits_int64 ht" "fits_int64 (get_or (bd_time block) 0)"
    "list_all fits_int64 (concat (map tx_integers (get_or (bd_tx block) [])))"
    using assms(3) hh by (simp_all add: payload_integers_def get_or_def)
  obtain r1 c1 where e: "execute (InsertBlock (block_values block h ht)) c = (r1, c1)"
    by (cases "execute (InsertBlock (block_values block h ht)) c")
  have r1: "r1 = None"
    using execute_reliable [of c "InsertBlock (block_values block h ht)"] assms(1) fits e
    by (simp add: block_values_def)
  have c1: "refuses c1 = reliable"
    using execute_result [OF e] assms(1) by simp
  obtain r2 c2 where
    t: "insert_transactions c1 (get_or (bd_tx block) []) h ht (bd_time block) = (r2, c2)"
    by (cases "insert_transactions c1 (get_or (bd_tx block) []) h ht (bd_time block)")
  have r2: "r2 = None"
    using insert_transactions_reliable [OF c1, of "get_or (bd_tx block) []" "bd_time block" ht h]
      assms(2) fits t by (simp add: complete_payload_def)
  have c2: "refuses c2 = reliable"
    using insert_transactions_result [OF t] c1 by simp
  have "fst (commit c2) = None"
    by (simp add: commit_def c2 reliable_def)
  with hh e r1 t r2 show ?thesis
    by (simp add: insert_block_body_def)
qed

lemma insert_block_body_result:
  assumes "insert_block_body c block = (res, c')"
  shows "committed c' = (if res = None then working c' else committed c)
         \<and> refuses c' = refuses c
         \<and> (res = None \<longrightarrow>
              complete_payload block
              \<and> (\<exists>h ht ids.
                   bd_hash block = Some h \<and> bd_height block = Some ht
                   \<and> map td_txid (get_or (bd_tx block) []) = map Some ids
                   \<and> blocks (working c')
                       = filter (\<lambda>b. height b \<noteq> ht \<and> hash b \<noteq> h) (blocks (working c))
                         @ [block_values block h ht]
                   \<and> transactions (working c')
                       = filter (\<lambda>r. txid r \<notin> set ids) (transactions (working c))
                         @ map (\<lambda>t. transaction_values t h ht (get_or (bd_time block) 0))
                             (remdups ids)
                   \<and> tx_inputs (working c')
                       = tx_inputs (working c)
                         @ concat (map tx_input_rows (get_or (bd_tx block) []))
                   \<and> tx_outputs (working c')
                       = tx_outputs (working c)
                         @ concat (map tx_output_rows (get_or (bd_tx block) []))))"
proof (cases "bd_hash block")
  case None
  with assms show ?thesis
    by (auto simp: insert_block_body_def)
next
  case (Some h)
  note h = Some
  show ?thesis
  proof (cases "bd_height block")
    case None
    with assms h show ?thesis
      by (auto simp: insert_block_body_def)
  next
    case (Some ht)
    note ht = Some
    obtain r1 c1 where e: "execute (InsertBlock (block_values block h ht)) c = (r1, c1)"
      by (cases "execute (InsertBlock (block_values block h ht)) c")
    note e1 = execute_result [OF e]
    show ?thesis
    proof (cases r1)
      case (Some x)
      with assms h ht e have "res = Some x" "c' = c1"
        by (simp_all add: insert_block_body_def)
      with e1 show ?thesis by simp
    next
      case None
      note r1 = None
      obtain r2 c2 where
        t: "insert_transactions c1 (get_or (bd_tx block) []) h ht (bd_time block) = (r2, c2)"
        by (cases "insert_transactions c1 (get_or (bd_tx block) []) h ht (bd_time block)")
      note t1 = insert_transactions_result [OF t]
      show ?thesis
      proof (cases r2)
        case (Some x)
        with assms h ht e r1 t have "res = Some x" "c' = c2"
          by (simp_all add: insert_block_body_def)
        with e1 t1 show ?thesis by simp
      next
        case None
        with assms h ht e r1 t have cm: "commit c2 = (res, c')"
          by (simp add: insert_block_body_def)
        show ?thesis
        proof (cases res)
          case (Some x)
          with cm have "c' = c2"
            by (auto simp: commit_def split: if_splits)
          with e1 t1 Some show ?thesis by simp
        next
          case None
          with cm have c': "c' = c2\<lparr>committed := working c2\<rparr>"
            by (auto simp: commit_def split: if_splits)
          from t1 \<open>r2 = None\<close> obtain ids where
            ids: "get_or (bd_tx block) [] = [] \<or> bd_time block \<noteq> None"
              "map td_txid (get_or (bd_tx block) []) = map Some ids"
              "blocks (working c2) = blocks (working c1)"
              "transactions (working c2)
                 = filter (\<lambda>r. txid r \<notin> set ids) (transactions (working c1))
                   @ map (\<lambda>t. transaction_values t h ht (get_or (bd_time block) 0))
                       (remdups ids)"
              "tx_inputs (working c2)
                 = tx_inputs (working c1) @ concat (map tx_input_rows (get_or (bd_tx block) []))"
              "tx_outputs (working c2)
                 = tx_outputs (working c1)
                   @ concat (map tx_output_rows (get_or (bd_tx block) []))"
            by blast
          have w1: "working c1 = replace_block (block_values block h ht) (working c)"
            using e1 r1 by simp
          have all: "list_all (\<lambda>tx. td_txid tx \<noteq> None) (get_or (bd_tx block) [])"
            unfolding list_all_iff
          proof
            fix tx
            assume "tx \<in> set (get_or (bd_tx block) [])"
            then have "td_txid tx \<in> set (map Some ids)"
              using ids(2) [symmetric] by simp
            then show "td_txid tx \<noteq> None"
              by auto
          qed
          have cp: "complete_payload block"
            using h ht ids(1) all by (simp add: complete_payload_def)
          have "bd_hash block = Some h \<and> bd_height block = Some ht
                \<and> map td_txid (get_or (bd_tx block) []) = map Some ids
                \<and> blocks (working c')
                    = filter (\<lambda>b. height b \<noteq> ht \<and> hash b \<noteq> h) (blocks (working c))
                      @ [block_values block h ht]
                \<and> transactions (working c')
                    = filter (\<lambda>r. txid r \<notin> set ids) (transactions (working c))
                      @ map (\<lambda>t. transaction_values t h ht (get_or (bd_time block) 0))
                          (remdups ids)
                \<and> tx_inputs (working c')
                    = tx_inputs (working c)
                      @ concat (map tx_input_rows (get_or (bd_tx block) []))
                \<and> tx_outputs (working c')
                    = tx_outputs (working c)
                      @ concat (map tx_output_rows (get_or (bd_tx block) []))"
            using h ht ids(2-6) w1
            by (simp add: c' replace_block_def block_values_def)
          then have "\<exists>h ht ids.
                bd_hash block = Some h \<and> bd_height block = Some ht
                \<and> map td_txid (get_or (bd_tx block) []) = map Some ids
                \<and> blocks (working c')
                    = filter (\<lambda>b. height b \<noteq> ht \<and> hash b \<noteq> h) (blocks (working c))
                      @ [block_values block h ht]
                \<and> transactions (working c')
                    = filter (\<lambda>r. txid r \<notin> set ids) (transactions (working c))
                      @ map (\<lambda>t. transaction_values t h ht (get_or (bd_time block) 0))
                          (remdups ids)
                \<and> tx_inputs (working c')
                    = tx_inputs (working c)
                      @ concat (map tx_input_rows (get_or (bd_tx block) []))
                \<and> tx_outputs (working c')
                    = tx_outputs (working c)
                      @ concat (map tx_output_rows (get_or (bd_tx block) []))"
            by blast
          moreover have "committed c' = working c'" "refuses c' = refuses c"
            using e1 t1 by (simp_all add: c')
          ultimately show ?thesis
            using None cp by simp
        qed
      qed
    qed
  qed
qed

text \<open>
  C5.  \<open>insert_block\<close> persists a block in one transaction, whatever the connection held
  before the call and whichever statements the database refuses.  If any step raises (a
  missing key, an integer that cannot be bound, a statement or the commit refused), the
  committed store is the one from before the call and the working copy is reset to it:
  with no change pending before the call, the connection is exactly as it was.  If no
  step raises, the payload was complete and everything is committed together: the block
  row in place of the rows of that height or hash, one transaction row with the block's
  hash, height and time for every txid of the payload in place of the rows of those
  txids, and the input and output rows of every transaction appended in payload order;
  nothing else changes.  On a database that refuses nothing, a complete payload whose
  integers fit 64 bits is persisted.
\<close>

theorem insert_block_atomic:
  assumes "insert_block c block = (res, c')"
  shows "refuses c' = refuses c
         \<and> (res \<noteq> None \<longrightarrow> committed c' = committed c \<and> working c' = committed c)
         \<and> (res \<noteq> None \<and> working c = committed c \<longrightarrow> c' = c)
         \<and> (res = None \<longrightarrow>
              complete_payload block \<and> committed c' = working c'
              \<and> (\<exists>h ht ids.
                   bd_hash block = Some h \<and> bd_height block = Some ht
                   \<and> map td_txid (get_or (bd_tx block) []) = map Some ids
                   \<and> blocks (committed c')
                       = filter (\<lambda>b. height b \<noteq> ht \<and> hash b \<noteq> h) (blocks (working c))
                         @ [block_values block h ht]
                   \<and> transactions (committed c')
                       = filter (\<lambda>r. txid r \<notin> set ids) (transactions (working c))
                         @ map (\<lambda>t. transaction_values t h ht (get_or (bd_time block) 0))
                             (remdups ids)
                   \<and> tx_inputs (committed c')
                       = tx_inputs (working c)
                         @ concat (map tx_input_rows (get_or (bd_tx block) []))
                   \<and> tx_outputs (committed c')
                       = tx_outputs (working c)
                         @ concat (map tx_output_rows (get_or (bd_tx block) []))))
         \<and> (refuses c = reliable \<and> list_all fits_int64 (payload_integers block)
              \<and> complete_payload block \<longrightarrow> res = None)"
proof -
  obtain rb cb where b: "insert_block_body c block = (rb, cb)"
    by (cases "insert_block_body c block")
  note b1 = insert_block_body_result [OF b]
  have ok: "res = None"
    if "refuses c = reliable" "list_all fits_int64 (payload_integers block)"
      "complete_payload block"
  proof -
    have "rb = None"
      using insert_block_body_reliable [OF that(1,3,2)] b by simp
    with assms b show ?thesis
      by (simp add: insert_block_def)
  qed
  show ?thesis
  proof (cases rb)
    case None
    with assms b have res: "res = None" and c': "c' = cb"
      by (simp_all add: insert_block_def)
    from b1 None have w: "committed cb = working cb"
      by simp
    from b1 None res ok show ?thesis
      unfolding c' w by simp
  next
    case (Some e)
    with assms b have res: "res \<noteq> None" and c': "c' = rollback cb"
      by (auto simp: insert_block_def)
    from b1 Some have cb: "committed cb = committed c" "refuses cb = refuses c"
      by simp_all
    have "c' = c" if "working c = committed c"
      using that cb by (simp add: c' rollback_def)
    with res cb ok show ?thesis
      by (auto simp: c' rollback_def)
  qed
qed

lemma genesis_payload_complete:
  "complete_payload genesis_payload"
  "list_all fits_int64 (payload_integers genesis_payload)"
  by (simp_all add: complete_payload_def payload_integers_def tx_integers_def
      tx_input_rows_def tx_output_rows_def input_values_def output_values_def
      fits_int64_def get_or_def example_defs)

lemma insert_block_broken_payload:
  "insert_block (connect reliable empty_store) broken_payload
   = (Some (KeyError ''txid''), connect reliable empty_store)"
  by (simp add: broken_payload_def insert_defs example_defs)

lemma insert_block_refuses_outputs:
  "insert_block (connect refuses_outputs empty_store) genesis_payload
   = (Some DatabaseError, connect refuses_outputs empty_store)"
  by (simp add: refuses_outputs_def insert_defs example_defs)

lemma insert_block_body_refuses_outputs:
  "map out_n (tx_outputs (working (snd (insert_block_body (connect refuses_outputs empty_store)
                                           genesis_payload)))) = [0]
   \<and> map hash (blocks (working (snd (insert_block_body (connect refuses_outputs empty_store)
                                        genesis_payload)))) = [''a0'']"
  by (simp add: refuses_outputs_def insert_defs example_defs)

theorem insert_block_atomic_witness:
  "fst (insert_block (connect reliable empty_store) genesis_payload) = None
   \<and> blocks (committed (snd (insert_block (connect reliable empty_store) genesis_payload)))
       = [row 0 ''a0'' '''']
   \<and> transactions (committed (snd (insert_block (connect reliable empty_store)
                                     genesis_payload)))
       = [\<lparr>txid = ''t0'', block_hash = ''a0'', block_height = 0, block_time = 1000\<rparr>]
   \<and> map in_txid (tx_inputs (committed (snd (insert_block (connect reliable empty_store)
                                               genesis_payload)))) = [''t0'']
   \<and> map out_n (tx_outputs (committed (snd (insert_block (connect reliable empty_store)
                                              genesis_payload)))) = [0, 1]
   \<and> insert_block (connect reliable empty_store) broken_payload
       = (Some (KeyError ''txid''), connect reliable empty_store)
   \<and> insert_block (connect refuses_outputs empty_store) genesis_payload
       = (Some DatabaseError, connect refuses_outputs empty_store)"
proof -
  obtain res c' where run: "insert_block (connect reliable empty_store) genesis_payload = (res, c')"
    by (cases "insert_block (connect reliable empty_store) genesis_payload")
  note a = insert_block_atomic [OF run]
  have res: "res = None"
    using a genesis_payload_complete by (simp add: connect_def)
  with a obtain h ht ids where
    r: "bd_hash genesis_payload = Some h" "bd_height genesis_payload = Some ht"
      "map td_txid (get_or (bd_tx genesis_payload) []) = map Some ids"
      "blocks (committed c')
         = filter (\<lambda>b. height b \<noteq> ht \<and> hash b \<noteq> h)
             (blocks (working (connect reliable empty_store)))
           @ [block_values genesis_payload h ht]"
      "transactions (committed c')
         = filter (\<lambda>r. txid r \<notin> set ids)
             (transactions (working (connect reliable empty_store)))
           @ map (\<lambda>t. transaction_values t h ht (get_or (bd_time genesis_payload) 0))
               (remdups ids)"
      "tx_inputs (committed c')
         = tx_inputs (working (connect reliable empty_store))
           @ concat (map tx_input_rows (get_or (bd_tx genesis_payload) []))"
      "tx_outputs (committed c')
         = tx_outputs (working (connect reliable empty_store))
           @ concat (map tx_output_rows (get_or (bd_tx genesis_payload) []))"
    by blast
  from r(1,2) have hh: "h = ''a0''" "ht = 0"
    by (simp_all add: example_defs)
  from r(3) have ids: "ids = [''t0'']"
    by (auto simp: example_defs get_or_def)
  have ok: "blocks (committed c') = [row 0 ''a0'' '''']"
    "transactions (committed c')
       = [\<lparr>txid = ''t0'', block_hash = ''a0'', block_height = 0, block_time = 1000\<rparr>]"
    "map in_txid (tx_inputs (committed c')) = [''t0'']"
    "map out_n (tx_outputs (committed c')) = [0, 1]"
    unfolding r(4-7) hh ids
    by (simp_all add: connect_def block_values_def transaction_values_def tx_input_rows_def
        tx_output_rows_def input_values_def output_values_def get_or_def example_defs)
  have bad: "insert_block (connect reliable empty_store) broken_payload
             = (Some (KeyError ''txid''), connect reliable empty_store)"
    using insert_block_atomic [OF insert_block_broken_payload] insert_block_broken_payload
    by simp
  have refused: "insert_block (connect refuses_outputs empty_store) genesis_payload
                 = (Some DatabaseError, connect refuses_outputs empty_store)"
    using insert_block_atomic [OF insert_block_refuses_outputs] insert_block_refuses_outputs
    by simp
  from res ok bad refused show ?thesis
    by (simp add: run)
qed

section \<open>Fork-point search\<close>

lemma find_fork_stop: "k < 0 \<Longrightarrow> find_fork c p k = Inr k"
  by (subst find_fork.simps) simp

lemma find_fork_raise:
  "0 \<le> k \<Longrightarrow> raised (SelectHash k) c = Some e \<Longrightarrow> find_fork c p k = Inl e"
  by (subst find_fork.simps) simp

lemma find_fork_match:
  "0 \<le> k \<Longrightarrow> raised (SelectHash k) c = None
   \<Longrightarrow> select_hash_by_height (working c) k = Some p \<Longrightarrow> find_fork c p k = Inr k"
  by (subst find_fork.simps) simp

lemma find_fork_step:
  "0 \<le> k \<Longrightarrow> raised (SelectHash k) c = None
   \<Longrightarrow> select_hash_by_height (working c) k \<noteq> Some p
   \<Longrightarrow> find_fork c p k = find_fork c p (k - 1)"
  by (subst find_fork.simps) simp

lemma find_fork_result:
  assumes "find_fork c p k = Inr f"
  shows "f \<le> k \<and> (- 1 \<le> k \<longrightarrow> - 1 \<le> f)
         \<and> (0 \<le> f \<longrightarrow> select_hash_by_height (working c) f = Some p)
         \<and> (\<forall>j. f < j \<and> j \<le> k \<longrightarrow>
               select_hash_by_height (working c) j \<noteq> Some p
               \<and> raised (SelectHash j) c = None)"
  using assms
proof (induction c p k rule: find_fork.induct)
  case (1 c p k)
  show ?case
  proof (cases "0 \<le> k")
    case False
    then have "f = k"
      using "1.prems" by (simp add: find_fork_stop)
    with False show ?thesis by auto
  next
    case True
    show ?thesis
    proof (cases "raised (SelectHash k) c")
      case (Some e)
      with True "1.prems" show ?thesis
        by (simp add: find_fork_raise)
    next
      case None
      show ?thesis
      proof (cases "select_hash_by_height (working c) k = Some p")
        case True
        with \<open>0 \<le> k\<close> None "1.prems" have "f = k"
          by (simp add: find_fork_match)
        with True \<open>0 \<le> k\<close> show ?thesis by auto
      next
        case False
        with \<open>0 \<le> k\<close> None "1.prems" have rest: "find_fork c p (k - 1) = Inr f"
          by (simp add: find_fork_step)
        have ih: "f \<le> k - 1 \<and> (- 1 \<le> k - 1 \<longrightarrow> - 1 \<le> f)
            \<and> (0 \<le> f \<longrightarrow> select_hash_by_height (working c) f = Some p)
            \<and> (\<forall>j. f < j \<and> j \<le> k - 1 \<longrightarrow>
                  select_hash_by_height (working c) j \<noteq> Some p
                  \<and> raised (SelectHash j) c = None)"
          using "1.IH" [OF \<open>0 \<le> k\<close> None False rest] .
        have "select_hash_by_height (working c) j \<noteq> Some p \<and> raised (SelectHash j) c = None"
          if "f < j" "j \<le> k" for j
        proof (cases "j = k")
          case True
          with False None show ?thesis by simp
        next
          case False
          with that ih show ?thesis by simp
        qed
        with ih \<open>0 \<le> k\<close> show ?thesis
          by auto
      qed
    qed
  qed
qed

text \<open>On a database that refuses nothing the search returns, for every height that fits.\<close>

lemma find_fork_reliable:
  assumes "refuses c = reliable" and "fits_int64 k"
  shows "\<exists>f. find_fork c p k = Inr f"
  using assms
proof (induction c p k rule: find_fork.induct)
  case (1 c p k)
  show ?case
  proof (cases "0 \<le> k")
    case False
    then show ?thesis by (simp add: find_fork_stop)
  next
    case True
    have q: "raised (SelectHash k) c = None"
      using "1.prems" by (simp add: raised_def execute_def reliable_def)
    show ?thesis
    proof (cases "select_hash_by_height (working c) k = Some p")
      case True
      with \<open>0 \<le> k\<close> q show ?thesis by (simp add: find_fork_match)
    next
      case False
      have "fits_int64 (k - 1)"
        using "1.prems"(2) True by (simp add: fits_int64_def)
      from "1.IH" [OF True q False "1.prems"(1) this] False True q show ?thesis
        by (simp add: find_fork_step)
    qed
  qed
qed

text \<open>
  What the loop computes.  For an incoming block at height \<open>h \<ge> 0\<close> whose parent hash
  is \<open>p\<close>, it visits the heights from \<open>h - 1\<close> down to 0 and compares the hash stored at
  each height with \<open>p\<close>.  Its result is the highest height below \<open>h\<close> that stores \<open>p\<close>,
  and -1 when no height from 0 to \<open>h - 1\<close> stores \<open>p\<close>.
\<close>

lemma find_fork_parent_match:
  assumes "0 \<le> h" and "find_fork c p (h - 1) = Inr f"
  shows "(f = - 1 \<and> (\<forall>j. 0 \<le> j \<and> j < h \<longrightarrow> select_hash_by_height (working c) j \<noteq> Some p))
         \<or> (0 \<le> f \<and> f < h \<and> select_hash_by_height (working c) f = Some p
            \<and> (\<forall>j. f < j \<and> j < h \<longrightarrow> select_hash_by_height (working c) j \<noteq> Some p))"
proof (cases "0 \<le> f")
  case True
  with find_fork_result [OF assms(2)] show ?thesis
    by simp
next
  case False
  with assms(1) find_fork_result [OF assms(2)] have "f = - 1"
    by simp
  with find_fork_result [OF assms(2)] show ?thesis
    by simp
qed

text \<open>
  \<open>handle_reorg\<close> truncates only when the parent of the incoming block is itself stored,
  at a height below the incoming one and not as the row the first query returns at
  \<open>h - 1\<close>.
\<close>

lemma handle_reorg_truncates_only_below_parent:
  assumes "fst (handle_reorg c block)"
  shows "\<exists>p h k. bd_previousblockhash block = Some p \<and> bd_height block = Some h
           \<and> 0 \<le> k \<and> k < h \<and> select_hash_by_height (working c) k = Some p
           \<and> select_height_by_hash (working c) p \<noteq> Some (h - 1)"
proof -
  from assms obtain p where p: "bd_previousblockhash block = Some p"
    by (cases "bd_previousblockhash block") (simp_all add: handle_reorg_def)
  from assms p obtain h where h: "bd_height block = Some h"
    by (cases "bd_height block") (auto simp: handle_reorg_def split: if_splits option.splits)
  from assms p h have n: "select_height_by_hash (working c) p \<noteq> Some (h - 1)"
    by (auto simp: handle_reorg_def split: if_splits option.splits)
  from assms p h n obtain f where f: "find_fork c p (h - 1) = Inr f" "0 \<le> f"
    by (cases "find_fork c p (h - 1)")
      (auto simp: handle_reorg_def split: if_splits option.splits)
  from find_fork_result [OF f(1)] f(2) have "f < h" "select_hash_by_height (working c) f = Some p"
    by simp_all
  with p h n f show ?thesis
    by blast
qed

lemma localA_hashes:
  "select_hash_by_height localA 0 = Some ''a0''"
  "select_hash_by_height localA 1 = Some ''a1''"
  "select_hash_by_height localA 2 = Some ''a2''"
  by (simp_all add: select_hash_by_height_def localA_def row_def)

lemma find_fork_localA_b2: "find_fork (connect reliable localA) ''b2'' 2 = Inr (- 1)"
  by (simp add: find_fork.simps raised_connect_reliable fits_int64_def working_connect
      localA_hashes)

lemma node_chainB_low:
  "getblockhash (node chainB) 0 = Inr ''a0''"
  "getblockhash (node chainB) 1 = Inr ''a1''"
  "getblockhash (node chainB) 2 = Inr ''b2''"
  by (simp_all add: node_def chainB_def payload_def)

lemma spec_fork_search_chainB: "spec_fork_search (node chainB) localA 0 2 = Some 1"
  by (simp add: spec_fork_search.simps node_chainB_low localA_hashes)

lemma select_height_localA_b2: "select_height_by_hash localA ''b2'' = None"
  by (simp add: select_height_by_hash_def localA_def row_def)

lemma handle_reorg_localA_b3:
  "handle_reorg (connect reliable localA) (payload 3 ''b3'' ''b2'' [])
   = (False, connect reliable localA)"
  by (simp add: handle_reorg_def payload_def raised_connect_reliable working_connect
      select_height_localA_b2 find_fork_localA_b2)

lemma insert_block_localA_b3:
  "insert_block (connect reliable localA) (payload 3 ''b3'' ''b2'' [])
   = (None, connect reliable localAB3)"
  by (simp add: insert_defs payload_def localAB3_def localA_def row_def)

lemma sync_height_localA_3:
  "sync_height (node chainB) (connect reliable localA) 3 = (Synced, connect reliable localAB3)"
  by (simp add: sync_height_def node_chainB handle_reorg_localA_b3 insert_block_localA_b3)

text \<open>
  C4.  The local chain is \<open>a0, a1, a2\<close>, the remote chain \<open>a0, a1, b2, b3, b4\<close>, and the
  incoming block is \<open>b3\<close> at height 3 with parent \<open>b2\<close>: the parent is not stored, so a
  divergence is declared.  Comparing remote and local hashes height by height, from 2
  downward, first agrees at height 1, the fork point.  The loop of \<open>handle_reorg\<close>
  compares the stored hashes with the parent hash instead: it ends at -1,
  \<open>handle_reorg\<close> returns False and deletes nothing, and the iteration stores \<open>b3\<close> on
  top of \<open>a2\<close>.
\<close>

theorem fork_search_ignores_remote_chain:
  "getblockhash (node chainB) 3 = Inr ''b3''
   \<and> getblock (node chainB) ''b3'' = Inr (payload 3 ''b3'' ''b2'' [])
   \<and> select_height_by_hash localA ''b2'' = None
   \<and> select_hash_by_height localA (3 - 1) = Some ''a2''
   \<and> getblockhash (node chainB) (3 - 1) = Inr ''b2''
   \<and> getblockhash (node chainB) 1 = Inr ''a1''
   \<and> select_hash_by_height localA 1 = Some ''a1''
   \<and> spec_fork_search (node chainB) localA 0 (3 - 1) = Some 1
   \<and> find_fork (connect reliable localA) ''b2'' (3 - 1) = Inr (- 1)
   \<and> handle_reorg (connect reliable localA) (payload 3 ''b3'' ''b2'' [])
       = (False, connect reliable localA)
   \<and> sync_height (node chainB) (connect reliable localA) 3
       = (Synced, connect reliable localAB3)
   \<and> map hash (blocks localAB3) = [''a0'', ''a1'', ''a2'', ''b3'']"
  by (simp add: node_chainB node_chainB_low localA_hashes spec_fork_search_chainB
      find_fork_localA_b2 handle_reorg_localA_b3 select_height_localA_b2
      sync_height_localA_3)
    (simp add: localAB3_def localA_def row_def)

section \<open>An unresolved reorganisation\<close>

lemma localC_hashes:
  "select_hash_by_height localC 0 = Some ''c0''"
  "select_hash_by_height localC 1 = Some ''c1''"
  "select_hash_by_height localC 2 = Some ''c2''"
  by (simp_all add: select_hash_by_height_def localC_def row_def)

lemma find_fork_localC_b2: "find_fork (connect reliable localC) ''b2'' 2 = Inr (- 1)"
  by (simp add: find_fork.simps raised_connect_reliable fits_int64_def working_connect
      localC_hashes)

lemma spec_fork_search_localC:
  "spec_fork_search (node chainB) localC 0 2 = None"
  "spec_fork_search (node chainB) localC 3 2 = None"
  by (simp_all add: spec_fork_search.simps node_chainB_low localC_hashes)

lemma select_height_localC_b2: "select_height_by_hash localC ''b2'' = None"
  by (simp add: select_height_by_hash_def localC_def row_def)

lemma handle_reorg_localC_b3:
  "handle_reorg (connect reliable localC) (payload 3 ''b3'' ''b2'' [])
   = (False, connect reliable localC)"
  by (simp add: handle_reorg_def payload_def raised_connect_reliable working_connect
      select_height_localC_b2 find_fork_localC_b2)

lemma insert_block_localC_b3:
  "insert_block (connect reliable localC) (payload 3 ''b3'' ''b2'' [])
   = (None, connect reliable localCB3)"
  by (simp add: insert_defs payload_def localCB3_def localC_def row_def)

lemma sync_height_localC_3:
  "sync_height (node chainB) (connect reliable localC) 3 = (Synced, connect reliable localCB3)"
  by (simp add: sync_height_def node_chainB handle_reorg_localC_b3 insert_block_localC_b3)

lemma select_height_localCB3_b3: "select_height_by_hash localCB3 ''b3'' = Some 3"
  by (simp add: select_height_by_hash_def localCB3_def localC_def row_def)

lemma handle_reorg_localCB3_b4:
  "handle_reorg (connect reliable localCB3) (payload 4 ''b4'' ''b3'' [])
   = (False, connect reliable localCB3)"
  by (simp add: handle_reorg_def payload_def raised_connect_reliable working_connect
      select_height_localCB3_b3)

lemma insert_block_localCB3_b4:
  "insert_block (connect reliable localCB3) (payload 4 ''b4'' ''b3'' [])
   = (None, connect reliable localCB4)"
  by (simp add: insert_defs payload_def localCB4_def localCB3_def localC_def row_def)

lemma sync_height_localCB3_4:
  "sync_height (node chainB) (connect reliable localCB3) 4
   = (Synced, connect reliable localCB4)"
  by (simp add: sync_height_def node_chainB handle_reorg_localCB3_b4 insert_block_localCB3_b4)

lemma sync_blocks_isl:
  "isl (sync_blocks db r s start_height max_blocks) = isl (getblockchaininfo r)"
  by (simp add: sync_blocks_def Let_def case_prod_beta split: sum.splits)

text \<open>
  The claim of C3 as stated fails.  The local chain \<open>c0, c1, c2\<close> shares no block with
  the remote chain \<open>a0, a1, b2, b3, b4\<close>, and a sync from height 3 fetches \<open>b3\<close>, whose
  parent \<open>b2\<close> is not stored.  No height from 2 down to 0 stores the remote hash of that
  height, and none stores \<open>b2\<close>: the search finds no fork point, whether it compares
  with the remote chain or with the parent hash, and whether it stops at height 0 or at
  the start height of the sync.  Height 3 is not failed: the block is inserted on top
  of \<open>c2\<close>, and the loop goes on to height 4.
\<close>

theorem unresolved_reorg_is_ingested:
  "getblock (node chainB) ''b3'' = Inr (payload 3 ''b3'' ''b2'' [])
   \<and> select_height_by_hash localC ''b2'' = None
   \<and> spec_fork_search (node chainB) localC 0 (3 - 1) = None
   \<and> spec_fork_search (node chainB) localC 3 (3 - 1) = None
   \<and> find_fork (connect reliable localC) ''b2'' (3 - 1) = Inr (- 1)
   \<and> sync_blocks reliable (node chainB) localC (Some 3) None
       = Inr ([(3, Synced), (4, Synced)], localCB4)
   \<and> map previousblockhash (blocks localCB4) = ['''', ''c0'', ''c1'', ''b2'', ''b3'']
   \<and> map hash (blocks localCB4) = [''c0'', ''c1'', ''c2'', ''b3'', ''b4'']"
proof -
  have "sync_blocks reliable (node chainB) localC (Some 3) None
        = Inr ([(3, Synced), (4, Synced)], localCB4)"
    by (simp add: sync_blocks_def node_chainB current_height_def end_height_def upto_3_4
        sync_height_localC_3 sync_height_localCB3_4 committed_connect)
  moreover have "map previousblockhash (blocks localCB4) = [[], ''c0'', ''c1'', ''b2'', ''b3'']"
    and "map hash (blocks localCB4) = [''c0'', ''c1'', ''c2'', ''b3'', ''b4'']"
    by (simp_all add: localCB4_def localCB3_def localC_def row_def)
  ultimately show ?thesis
    by (simp add: node_chainB find_fork_localC_b2 spec_fork_search_localC
        select_height_localC_b2)
qed

text \<open>
  C3 (as amended).  When a divergence is declared for the fetched block and the backward
  search ends below height 0, \<open>handle_reorg\<close> returns False and leaves the connection as
  it was; the iteration then inserts the block and its outcome is that of the insert.
  The loop attempts every height it is given, whatever the outcomes, and the sync as a
  whole raises only when \<open>getblockchaininfo\<close> does.
\<close>

theorem handle_reorg_unresolved_continues:
  assumes "bd_previousblockhash block = Some p" and "p \<noteq> []"
    and "bd_height block = Some h"
    and "raised (SelectHeight p) c = None"
    and "select_height_by_hash (working c) p \<noteq> Some (h - 1)"
    and "find_fork c p (h - 1) = Inr f" and "f < 0"
    and "getblockhash r k = Inr bh" and "getblock r bh = Inr block"
  shows "handle_reorg c block = (False, c)
         \<and> sync_height r c k
             = (case insert_block c block of
                  (None, c') \<Rightarrow> (Synced, c')
                | (Some e, c') \<Rightarrow> (Failed e, c'))
         \<and> map fst (fst (sync_range r c (k # ks))) = k # ks
         \<and> isl (sync_blocks db r s start_height max_blocks) = isl (getblockchaininfo r)"
proof -
  have hr: "handle_reorg c block = (False, c)"
    using assms(1-7) by (simp add: handle_reorg_def)
  have "sync_height r c k
        = (case insert_block c block of
             (None, c') \<Rightarrow> (Synced, c')
           | (Some e, c') \<Rightarrow> (Failed e, c'))"
    using assms(8,9) by (simp add: sync_height_def hr)
  with hr show ?thesis
    using sync_range_heights [of r c "k # ks"] sync_blocks_isl by simp
qed

theorem handle_reorg_unresolved_continues_witness:
  "handle_reorg (connect reliable localC) (payload 3 ''b3'' ''b2'' [])
     = (False, connect reliable localC)
   \<and> sync_height (node chainB) (connect reliable localC) 3
       = (Synced, connect reliable localCB3)
   \<and> map fst (fst (sync_range (node chainB) (connect reliable localC) [3, 4])) = [3, 4]
   \<and> \<not> isl (sync_blocks reliable (node chainB) localC None None)"
proof -
  have a: "bd_previousblockhash (payload 3 ''b3'' ''b2'' []) = Some ''b2''" "''b2'' \<noteq> []"
    "bd_height (payload 3 ''b3'' ''b2'' []) = Some 3"
    "raised (SelectHeight ''b2'') (connect reliable localC) = None"
    by (simp_all add: payload_def raised_connect_reliable)
  have b: "select_height_by_hash (working (connect reliable localC)) ''b2'' \<noteq> Some (3 - 1)"
    "find_fork (connect reliable localC) ''b2'' (3 - 1) = Inr (- 1)" "(- 1::int) < 0"
    by (simp_all add: working_connect select_height_localC_b2 find_fork_localC_b2)
  from handle_reorg_unresolved_continues [OF a b node_chainB(2) node_chainB(4),
      of "[4]" reliable localC None None]
  show ?thesis
    by (simp add: insert_block_localC_b3 sync_height_localC_3 sync_height_localCB3_4
        node_chainB)
qed

section \<open>Audit report\<close>

lemma compare_blocks_missing:
  "snd (compare_blocks db btc start hs) = filter (\<lambda>k. db k = None) hs"
  by (induction hs) (auto simp: check_height_def case_prod_beta split: option.splits)

lemma check_height_present:
  "list_all (\<lambda>i. inc_height i = k \<and> db k \<noteq> None) (fst (check_height db btc start k))"
  by (simp add: check_height_def split: option.split)

lemma compare_blocks_present:
  "list_all (\<lambda>i. inc_height i \<in> set hs \<and> db (inc_height i) \<noteq> None)
     (fst (compare_blocks db btc start hs))"
proof (induction hs)
  case Nil
  show ?case by simp
next
  case (Cons k hs)
  have "list_all (\<lambda>i. inc_height i \<in> set (k # hs) \<and> db (inc_height i) \<noteq> None)
          (fst (check_height db btc start k))"
    using check_height_present [of k db btc start]
    by (rule list.pred_mono_strong) simp
  moreover have "list_all (\<lambda>i. inc_height i \<in> set (k # hs) \<and> db (inc_height i) \<noteq> None)
          (fst (compare_blocks db btc start hs))"
    using Cons.IH by (rule list.pred_mono_strong) simp
  ultimately show ?case
    by (simp add: case_prod_beta)
qed

lemma round2_nothing_wrong: "round2 (consistency_percentage 3 0) = 100"
  by code_simp

text \<open>
  The percentage is that of the floating-point computation: with 93 of 160 blocks
  consistent the quotient times 100 is just above 58.125, so the report says 58.13 (the
  double nearest to it), where the exact quotient would round to 58.12.
\<close>

lemma round2_in_floating_point:
  "round2 (consistency_percentage 160 67) = to_double (5813 / 100)
   \<and> round_half_even ((160 - 67) / 160 * 100 * 100) = 5812"
  by code_simp

text \<open>
  C7 (as amended).  Whenever the audit returns a report, its status is healthy exactly
  when the list of inconsistencies (hash and previous-hash mismatches) is empty.  The
  heights of the window that are absent locally are listed and counted separately, in
  \<open>missing_blocks\<close>; no inconsistency is recorded at such a height, and the status does
  not depend on them.
\<close>

theorem status_ignores_missing_blocks:
  assumes "check_block_consistency r s n = Inr rep"
  shows "(rp_status rep = healthy) = (rp_inconsistencies rep = [])
         \<and> rp_total_inconsistencies rep = length (rp_inconsistencies rep)
         \<and> rp_missing_count rep = length (rp_missing_blocks rep)
         \<and> rp_missing_blocks rep
             = filter (\<lambda>k. db_blocks s (rp_start_height rep) k = None)
                 [rp_start_height rep..rp_end_height rep]
         \<and> (\<forall>i \<in> set (rp_inconsistencies rep). inc_height i \<notin> set (rp_missing_blocks rep))"
proof -
  from assms obtain t where t: "max_height s = Some t"
    by (auto simp: check_block_consistency_def split: option.splits)
  define start where "start = max 0 (t - n + 1)"
  define btc where "btc = map_of (bitcoind_blocks r [start..t])"
  define res where "res = compare_blocks (db_blocks s start) btc start [start..t]"
  have rep: "rp_inconsistencies rep = fst res" "rp_missing_blocks rep = snd res"
    "rp_total_inconsistencies rep = length (fst res)" "rp_missing_count rep = length (snd res)"
    "rp_status rep = (if length (fst res) = 0 then healthy else inconsistent)"
    "rp_start_height rep = start" "rp_end_height rep = t"
    using assms t
    by (auto simp: check_block_consistency_def Let_def case_prod_beta res_def btc_def start_def)
  have miss: "snd res = filter (\<lambda>k. db_blocks s start k = None) [start..t]"
    by (simp add: res_def compare_blocks_missing)
  have "\<forall>i \<in> set (fst res). inc_height i \<notin> set (snd res)"
    using compare_blocks_present [of "[start..t]" "db_blocks s start" btc start]
    unfolding list_all_iff res_def compare_blocks_missing by auto
  with rep miss show ?thesis
    by simp
qed

lemma bitcoind_blocks_chainA:
  "bitcoind_blocks (node chainA) [0, 1, 2]
   = [(0, \<lparr>bc_height = 0, bc_hash = ''a0'', bc_previousblockhash = '''', bc_time = 1000\<rparr>),
      (1, \<lparr>bc_height = 1, bc_hash = ''a1'', bc_previousblockhash = ''a0'', bc_time = 1001\<rparr>),
      (2, \<lparr>bc_height = 2, bc_hash = ''a2'', bc_previousblockhash = ''a1'', bc_time = 1002\<rparr>)]"
  by (simp add: bitcoind_blocks_def fetch_bitcoind_block_def node_chainA)
     (simp add: payload_def get_or_def)

lemma gap_store_lookup:
  "db_blocks gap_store 0 0 = Some (row 0 ''a0'' '''')"
  "db_blocks gap_store 0 1 = None"
  "db_blocks gap_store 0 2 = Some (row 2 ''a2'' ''a1'')"
  "max_height gap_store = Some 2"
  by (simp_all add: db_blocks_def gap_store_def row_def max_height_def)

lemma audit_gap_store:
  "check_block_consistency (node chainA) gap_store 10
   = Inr \<lparr>rp_start_height = 0, rp_end_height = 2, rp_total = 3, rp_percentage = 100,
          rp_total_inconsistencies = 0, rp_missing_count = 1, rp_inconsistencies = [],
          rp_missing_blocks = [1], rp_status = healthy\<rparr>"
proof -
  have hs: "[0..2] = [0, 1, 2::int]"
    by (simp add: upto_rec1)
  have ch: "check_height (db_blocks gap_store 0)
          (map_of (bitcoind_blocks (node chainA) [0, 1, 2])) 0 0 = ([], [])"
    "check_height (db_blocks gap_store 0)
          (map_of (bitcoind_blocks (node chainA) [0, 1, 2])) 0 1 = ([], [1])"
    "check_height (db_blocks gap_store 0)
          (map_of (bitcoind_blocks (node chainA) [0, 1, 2])) 0 2 = ([], [])"
    by (simp_all add: bitcoind_blocks_chainA check_height_def gap_store_lookup row_def)
  note pct = round2_nothing_wrong
  have len: "length (bitcoind_blocks (node chainA) [0, 1, 2]) = 3"
    by (simp add: bitcoind_blocks_chainA)
  show ?thesis
    by (simp add: check_block_consistency_def Let_def gap_store_lookup hs ch len pct)
qed

text \<open>
  The claim of C7 as stated fails.  The local store holds heights 0 and 2 and agrees
  with the remote chain on both; height 1 is missing.  The report lists the missing
  height and its status is healthy.
\<close>

theorem missing_block_reported_healthy:
  "map height (blocks gap_store) = [0, 2]
   \<and> map_sum id rp_missing_blocks (check_block_consistency (node chainA) gap_store 10) = Inr [1]
   \<and> map_sum id rp_status (check_block_consistency (node chainA) gap_store 10) = Inr healthy"
  by (simp add: audit_gap_store) (simp add: gap_store_def row_def)

theorem status_ignores_missing_blocks_witness:
  "check_block_consistency (node chainA) gap_store 10
   = Inr \<lparr>rp_start_height = 0, rp_end_height = 2, rp_total = 3, rp_percentage = 100,
          rp_total_inconsistencies = 0, rp_missing_count = 1, rp_inconsistencies = [],
          rp_missing_blocks = [1], rp_status = healthy\<rparr>
   \<and> filter (\<lambda>k. db_blocks gap_store 0 k = None) [0..2] = [1]"
  using status_ignores_missing_blocks [OF audit_gap_store] audit_gap_store
  by simp

section \<open>Audit of a window with one mutated hash\<close>

lemma find_Some_in: "find P xs = Some x \<Longrightarrow> P x \<and> x \<in> set xs"
  by (induction xs) (auto split: if_splits)

lemma db_blocks_present:
  assumes "k \<in> height ` set (blocks s)" and "start \<le> k"
  shows "\<exists>b \<in> set (blocks s). height b = k \<and> db_blocks s start k = Some b"
proof (cases "db_blocks s start k")
  case None
  with assms show ?thesis
    by (auto simp: db_blocks_def find_None_iff)
next
  case (Some b)
  then have f: "find (\<lambda>b. height b = k) (filter (\<lambda>b. start \<le> height b) (blocks s)) = Some b"
    by (simp add: db_blocks_def)
  have "height b = k" and "b \<in> set (blocks s)"
    using find_Some_in [OF f] by simp_all
  with Some show ?thesis by blast
qed

lemma bitcoind_blocks_Cons:
  "bitcoind_blocks r (a # hs)
   = (case fetch_bitcoind_block r a of None \<Rightarrow> [] | Some b \<Rightarrow> [(a, b)]) @ bitcoind_blocks r hs"
  by (simp add: bitcoind_blocks_def)

lemma bitcoind_blocks_Nil: "bitcoind_blocks r [] = []"
  by (simp add: bitcoind_blocks_def)

lemma map_of_bitcoind_blocks:
  "map_of (bitcoind_blocks r hs) k = (if k \<in> set hs then fetch_bitcoind_block r k else None)"
proof (induction hs)
  case Nil
  show ?case by (simp add: bitcoind_blocks_Nil)
next
  case (Cons a hs)
  show ?case
  proof (cases "fetch_bitcoind_block r a")
    case None
    with Cons show ?thesis
      by (simp add: bitcoind_blocks_Cons)
  next
    case (Some b)
    with Cons show ?thesis
      by (simp add: bitcoind_blocks_Cons)
  qed
qed

lemma length_bitcoind_blocks:
  assumes "\<And>k. k \<in> set hs \<Longrightarrow> fetch_bitcoind_block r k \<noteq> None"
  shows "length (bitcoind_blocks r hs) = length hs"
  using assms
proof (induction hs)
  case Nil
  show ?case by (simp add: bitcoind_blocks_Nil)
next
  case (Cons a hs)
  from Cons.prems [of a] obtain b where "fetch_bitcoind_block r a = Some b"
    by auto
  moreover have "length (bitcoind_blocks r hs) = length hs"
    using Cons.IH Cons.prems by simp
  ultimately show ?case
    by (simp add: bitcoind_blocks_Cons)
qed

lemma compare_blocks_concat:
  "fst (compare_blocks db btc start hs) = concat (map (\<lambda>k. fst (check_height db btc start k)) hs)"
  by (induction hs) (simp_all add: case_prod_beta)

lemma concat_two_marks:
  fixes h :: int
  assumes "a \<le> h" and "h \<le> b"
  shows "concat (map (\<lambda>k. (if k = h then [x] else []) @ (if k = h + 1 then [y] else [])) [a..b])
         = x # (if h < b then [y] else [])"
proof -
  have split: "[a..b] = [a..h - 1] @ h # [h + 1..b]"
    using assms by (rule upto_split3)
  have low: "concat (map (\<lambda>k. (if k = h then [x] else []) @ (if k = h + 1 then [y] else []))
               [a..h - 1]) = []"
    by simp
  have high: "concat (map (\<lambda>k. (if k = h then [x] else []) @ (if k = h + 1 then [y] else []))
               [h + 1..b]) = (if h < b then [y] else [])"
  proof (cases "h < b")
    case True
    then have "[h + 1..b] = (h + 1) # [h + 1 + 1..b]"
      by (intro upto_rec1) simp
    moreover have "concat (map (\<lambda>k. (if k = h then [x] else []) @ (if k = h + 1 then [y] else []))
               [h + 1 + 1..b]) = []"
      by simp
    ultimately show ?thesis
      using True by simp
  next
    case False
    with assms have "[h + 1..b] = []"
      by simp
    with False show ?thesis by simp
  qed
  show ?thesis
    unfolding split using low high by simp
qed

lemma round2_percentages:
  "round2 (consistency_percentage 10 (Suc 0)) = 90"
  "round2 (consistency_percentage 10 2) = 80"
  "round2 (consistency_percentage 10 (Suc (Suc 0))) = 80"
  by code_simp+

text \<open>
  C6 (as amended).  The local store holds ten blocks, at heights \<open>t - 9 .. t\<close>; the remote
  node serves a linked chain over that window (each block's \<open>previousblockhash\<close> is the
  remote hash one height below); the local hash differs from the remote hash at height
  \<open>h\<close> and nowhere else.  Auditing a window of ten then reports a \<open>hash_mismatch\<close> at
  \<open>h\<close> and, unless \<open>h\<close> is the tip, a \<open>prev_hash_mismatch\<close> at \<open>h + 1\<close> as well, since the
  stored hash at \<open>h\<close> is also compared with the remote parent hash of \<open>h + 1\<close>.  The
  percentage is 90 when \<open>h\<close> is the tip and 80 otherwise.
\<close>

theorem audit_one_mutated_hash:
  assumes tip: "9 \<le> t"
    and holds: "length (blocks s) = 10" "height ` set (blocks s) = {t - 9..t}"
    and h: "t - 9 \<le> h" "h \<le> t"
    and mutated: "\<forall>b \<in> set (blocks s). (hash b = rh (height b)) = (height b \<noteq> h)"
    and remote_hashes: "\<forall>k \<in> {t - 9..t}. getblockhash r k = Inr (rh k)"
    and remote_linked:
      "\<forall>k \<in> {t - 9..t}. \<exists>info. getblock r (rh k) = Inr info
          \<and> (t - 9 < k \<longrightarrow> bd_previousblockhash info = Some (rh (k - 1)))"
  shows "\<exists>rep. check_block_consistency r s 10 = Inr rep
           \<and> map (\<lambda>i. (inc_height i, inc_type i)) (rp_inconsistencies rep)
               = (h, hash_mismatch) # (if h < t then [(h + 1, prev_hash_mismatch)] else [])
           \<and> rp_total_inconsistencies rep = (if h < t then 2 else 1)
           \<and> rp_percentage rep = (if h < t then 80 else 90)
           \<and> rp_total rep = 10 \<and> rp_missing_blocks rep = []
           \<and> rp_status rep = inconsistent"
proof -
  let ?start = "t - 9"
  let ?db = "db_blocks s ?start"
  let ?btc = "map_of (bitcoind_blocks r [?start..t])"
  let ?res = "compare_blocks ?db ?btc ?start [?start..t]"
  let ?proj = "\<lambda>i. (inc_height i, inc_type i)"
  have nonempty: "blocks s \<noteq> []"
    using holds(1) by auto
  have "Max {t - 9..t} = t"
    by (rule Max_eqI) simp_all
  then have mx: "max_height s = Some t"
    using max_height_eq_Max [OF nonempty] holds(2) by simp
  have st: "max 0 (t - 9) = ?start"
    using tip by simp
  have db_at: "\<exists>b. ?db k = Some b \<and> (hash b = rh k) = (k \<noteq> h)"
    if "?start \<le> k" "k \<le> t" for k
  proof -
    from that holds(2) have "k \<in> height ` set (blocks s)"
      by simp
    from db_blocks_present [OF this that(1)] mutated show ?thesis
      by auto
  qed
  have fetch_at: "\<exists>bb. fetch_bitcoind_block r k = Some bb \<and> bc_hash bb = rh k
                    \<and> (?start < k \<longrightarrow> bc_previousblockhash bb = rh (k - 1))"
    if "?start \<le> k" "k \<le> t" for k
  proof -
    from that remote_hashes have a: "getblockhash r k = Inr (rh k)"
      by simp
    from that remote_linked obtain info where b: "getblock r (rh k) = Inr info"
      and c: "?start < k \<longrightarrow> bd_previousblockhash info = Some (rh (k - 1))"
      by force
    show ?thesis
      using a b c by (simp add: fetch_bitcoind_block_def get_or_def)
  qed
  have btc_at: "?btc k = fetch_bitcoind_block r k" if "?start \<le> k" "k \<le> t" for k
    using that by (simp add: map_of_bitcoind_blocks)
  have ch: "map ?proj (fst (check_height ?db ?btc ?start k))
            = (if k = h then [(h, hash_mismatch)] else [])
              @ (if k = h + 1 then [(h + 1, prev_hash_mismatch)] else [])"
    if k: "?start \<le> k" "k \<le> t" for k
  proof -
    from db_at [OF k] obtain b where b: "?db k = Some b" "(hash b = rh k) = (k \<noteq> h)"
      by blast
    from fetch_at [OF k] btc_at [OF k] obtain bb where bb: "?btc k = Some bb" "bc_hash bb = rh k"
      "?start < k \<longrightarrow> bc_previousblockhash bb = rh (k - 1)"
      by auto
    show ?thesis
    proof (cases "?start < k")
      case True
      then have k1: "?start \<le> k - 1" "k - 1 \<le> t"
        using k by simp_all
      from db_at [OF k1] obtain b' where b': "?db (k - 1) = Some b'"
        "(hash b' = rh (k - 1)) = (k - 1 \<noteq> h)"
        by blast
      from fetch_at [OF k1] btc_at [OF k1] obtain bb' where bb': "?btc (k - 1) = Some bb'"
        by auto
      show ?thesis
        using True b bb b' bb' by (auto simp: check_height_def)
    next
      case False
      with k h have "k \<noteq> h + 1"
        by simp
      with False b bb show ?thesis
        by (auto simp: check_height_def)
    qed
  qed
  have "map ?proj (fst ?res)
        = concat (map (\<lambda>k. map ?proj (fst (check_height ?db ?btc ?start k))) [?start..t])"
    by (simp add: compare_blocks_concat map_concat comp_def)
  also have "\<dots> = concat (map (\<lambda>k. (if k = h then [(h, hash_mismatch)] else [])
                                @ (if k = h + 1 then [(h + 1, prev_hash_mismatch)] else []))
                          [?start..t])"
    by (rule arg_cong [where f = concat], rule map_cong) (simp_all add: ch)
  also have "\<dots> = (h, hash_mismatch) # (if h < t then [(h + 1, prev_hash_mismatch)] else [])"
    using h by (rule concat_two_marks)
  finally have incs: "map ?proj (fst ?res)
        = (h, hash_mismatch) # (if h < t then [(h + 1, prev_hash_mismatch)] else [])" .
  then have "length (map ?proj (fst ?res)) = (if h < t then 2 else 1)"
    by simp
  then have n: "length (fst ?res) = (if h < t then 2 else 1)"
    by simp
  have "?db k \<noteq> None" if "?start \<le> k" "k \<le> t" for k
    using db_at [OF that] by auto
  then have miss: "snd ?res = []"
    by (simp add: compare_blocks_missing filter_empty_conv)
  have "length (bitcoind_blocks r [?start..t]) = length [?start..t]"
    using fetch_at by (intro length_bitcoind_blocks) auto
  then have len: "length (bitcoind_blocks r [?start..t]) = 10"
    by simp
  have "check_block_consistency r s 10
        = Inr \<lparr>rp_start_height = ?start, rp_end_height = t, rp_total = 10,
               rp_percentage = round2 (consistency_percentage 10 (length (fst ?res))),
               rp_total_inconsistencies = length (fst ?res),
               rp_missing_count = 0,
               rp_inconsistencies = fst ?res,
               rp_missing_blocks = [],
               rp_status = (if length (fst ?res) = 0 then healthy else inconsistent)\<rparr>"
    using miss by (simp add: check_block_consistency_def Let_def mx st len case_prod_beta)
  moreover have "round2 (consistency_percentage 10 (length (fst ?res)))
                 = (if h < t then 80 else 90)"
    by (simp add: n round2_percentages)
  ultimately show ?thesis
    using incs n by simp
qed

lemma upto_0_9: "[0..9] = [0, 1, 2, 3, 4, 5, 6, 7, 8, 9::int]"
  by (simp add: upto_rec1)

lemma remote_hash_values:
  "remote_hash 0 = ''h0''" "remote_hash 1 = ''h1''" "remote_hash 2 = ''h2''"
  "remote_hash 3 = ''h3''" "remote_hash 4 = ''h4''" "remote_hash 5 = ''h5''"
  "remote_hash 6 = ''h6''" "remote_hash 7 = ''h7''" "remote_hash 8 = ''h8''"
  "remote_hash 9 = ''h9''"
  by (simp_all add: remote_hash_def hashes10_def)

lemma chain10_payloads:
  "chain10 = [payload 0 ''h0'' '''' [], payload 1 ''h1'' ''h0'' [], payload 2 ''h2'' ''h1'' [],
              payload 3 ''h3'' ''h2'' [], payload 4 ''h4'' ''h3'' [], payload 5 ''h5'' ''h4'' [],
              payload 6 ''h6'' ''h5'' [], payload 7 ''h7'' ''h6'' [], payload 8 ''h8'' ''h7'' [],
              payload 9 ''h9'' ''h8'' []]"
  by (simp add: chain10_def remote_hash_values payload_def)

lemma fetch_chain10:
  "fetch_bitcoind_block (node chain10) 0
     = Some \<lparr>bc_height = 0, bc_hash = ''h0'', bc_previousblockhash = '''', bc_time = 1000\<rparr>"
  "fetch_bitcoind_block (node chain10) 1
     = Some \<lparr>bc_height = 1, bc_hash = ''h1'', bc_previousblockhash = ''h0'', bc_time = 1001\<rparr>"
  "fetch_bitcoind_block (node chain10) 2
     = Some \<lparr>bc_height = 2, bc_hash = ''h2'', bc_previousblockhash = ''h1'', bc_time = 1002\<rparr>"
  "fetch_bitcoind_block (node chain10) 3
     = Some \<lparr>bc_height = 3, bc_hash = ''h3'', bc_previousblockhash = ''h2'', bc_time = 1003\<rparr>"
  "fetch_bitcoind_block (node chain10) 4
     = Some \<lparr>bc_height = 4, bc_hash = ''h4'', bc_previousblockhash = ''h3'', bc_time = 1004\<rparr>"
  "fetch_bitcoind_block (node chain10) 5
     = Some \<lparr>bc_height = 5, bc_hash = ''h5'', bc_previousblockhash = ''h4'', bc_time = 1005\<rparr>"
  "fetch_bitcoind_block (node chain10) 6
     = Some \<lparr>bc_height = 6, bc_hash = ''h6'', bc_previousblockhash = ''h5'', bc_time = 1006\<rparr>"
  "fetch_bitcoind_block (node chain10) 7
     = Some \<lparr>bc_height = 7, bc_hash = ''h7'', bc_previousblockhash = ''h6'', bc_time = 1007\<rparr>"
  "fetch_bitcoind_block (node chain10) 8
     = Some \<lparr>bc_height = 8, bc_hash = ''h8'', bc_previousblockhash = ''h7'', bc_time = 1008\<rparr>"
  "fetch_bitcoind_block (node chain10) 9
     = Some \<lparr>bc_height = 9, bc_hash = ''h9'', bc_previousblockhash = ''h8'', bc_time = 1009\<rparr>"
  by (simp_all add: fetch_bitcoind_block_def node_def chain10_payloads payload_def get_or_def)

lemma local10_5_blocks:
  "blocks (local10 5)
   = [row 0 ''h0'' '''', row 1 ''h1'' ''h0'', row 2 ''h2'' ''h1'', row 3 ''h3'' ''h2'',
      row 4 ''h4'' ''h3'', row 5 ''xx'' ''h4'', row 6 ''h6'' ''h5'', row 7 ''h7'' ''h6'',
      row 8 ''h8'' ''h7'', row 9 ''h9'' ''h8'']"
  by (simp add: local10_def remote_hash_values empty_store_def)

lemma local10_5_lookup:
  "db_blocks (local10 5) 0 0 = Some (row 0 ''h0'' '''')"
  "db_blocks (local10 5) 0 1 = Some (row 1 ''h1'' ''h0'')"
  "db_blocks (local10 5) 0 2 = Some (row 2 ''h2'' ''h1'')"
  "db_blocks (local10 5) 0 3 = Some (row 3 ''h3'' ''h2'')"
  "db_blocks (local10 5) 0 4 = Some (row 4 ''h4'' ''h3'')"
  "db_blocks (local10 5) 0 5 = Some (row 5 ''xx'' ''h4'')"
  "db_blocks (local10 5) 0 6 = Some (row 6 ''h6'' ''h5'')"
  "db_blocks (local10 5) 0 7 = Some (row 7 ''h7'' ''h6'')"
  "db_blocks (local10 5) 0 8 = Some (row 8 ''h8'' ''h7'')"
  "db_blocks (local10 5) 0 9 = Some (row 9 ''h9'' ''h8'')"
  by (simp_all add: db_blocks_def local10_5_blocks row_def)

lemma max_height_local10_5: "max_height (local10 5) = Some 9"
  by (simp add: max_height_def local10_5_blocks row_def)

lemma btc_chain10:
  "0 \<le> k \<Longrightarrow> k \<le> 9 \<Longrightarrow>
   map_of (bitcoind_blocks (node chain10) [0..9]) k = fetch_bitcoind_block (node chain10) k"
  by (simp add: map_of_bitcoind_blocks)

lemma check_height_local10_5:
  "check_height (db_blocks (local10 5) 0) (map_of (bitcoind_blocks (node chain10) [0..9])) 0 0
     = ([], [])"
  "check_height (db_blocks (local10 5) 0) (map_of (bitcoind_blocks (node chain10) [0..9])) 0 1
     = ([], [])"
  "check_height (db_blocks (local10 5) 0) (map_of (bitcoind_blocks (node chain10) [0..9])) 0 2
     = ([], [])"
  "check_height (db_blocks (local10 5) 0) (map_of (bitcoind_blocks (node chain10) [0..9])) 0 3
     = ([], [])"
  "check_height (db_blocks (local10 5) 0) (map_of (bitcoind_blocks (node chain10) [0..9])) 0 4
     = ([], [])"
  "check_height (db_blocks (local10 5) 0) (map_of (bitcoind_blocks (node chain10) [0..9])) 0 5
     = ([\<lparr>inc_height = 5, inc_type = hash_mismatch, inc_db = ''xx'', inc_bitcoind = ''h5''\<rparr>],
        [])"
  "check_height (db_blocks (local10 5) 0) (map_of (bitcoind_blocks (node chain10) [0..9])) 0 6
     = ([\<lparr>inc_height = 6, inc_type = prev_hash_mismatch, inc_db = ''xx'',
           inc_bitcoind = ''h5''\<rparr>], [])"
  "check_height (db_blocks (local10 5) 0) (map_of (bitcoind_blocks (node chain10) [0..9])) 0 7
     = ([], [])"
  "check_height (db_blocks (local10 5) 0) (map_of (bitcoind_blocks (node chain10) [0..9])) 0 8
     = ([], [])"
  "check_height (db_blocks (local10 5) 0) (map_of (bitcoind_blocks (node chain10) [0..9])) 0 9
     = ([], [])"
  by (simp_all add: check_height_def btc_chain10 fetch_chain10 local10_5_lookup row_def)

lemma length_bitcoind_chain10: "length (bitcoind_blocks (node chain10) [0..9]) = 10"
proof -
  have "fetch_bitcoind_block (node chain10) k \<noteq> None" if "k \<in> set [0..9]" for k
    using that unfolding upto_0_9 by (auto simp: fetch_chain10)
  then have "length (bitcoind_blocks (node chain10) [0..9]) = length [0..9::int]"
    by (rule length_bitcoind_blocks)
  then show ?thesis by simp
qed

text \<open>
  The claim of C6 as stated fails.  Ten local blocks mirror the remote chain \<open>h0 .. h9\<close>
  except that the hash stored at height 5 is \<open>xx\<close>.  The audit of ten blocks reports
  two discrepancies, at heights 5 and 6, and 80 percent.
\<close>

theorem mutated_hash_reported_twice:
  "check_block_consistency (node chain10) (local10 5) 10
   = Inr \<lparr>rp_start_height = 0, rp_end_height = 9, rp_total = 10, rp_percentage = 80,
          rp_total_inconsistencies = 2, rp_missing_count = 0,
          rp_inconsistencies =
            [\<lparr>inc_height = 5, inc_type = hash_mismatch, inc_db = ''xx'',
              inc_bitcoind = ''h5''\<rparr>,
             \<lparr>inc_height = 6, inc_type = prev_hash_mismatch, inc_db = ''xx'',
              inc_bitcoind = ''h5''\<rparr>],
          rp_missing_blocks = [], rp_status = inconsistent\<rparr>"
proof -
  have cmp: "compare_blocks (db_blocks (local10 5) 0)
               (map_of (bitcoind_blocks (node chain10) [0..9])) 0 [0, 1, 2, 3, 4, 5, 6, 7, 8, 9]
             = ([\<lparr>inc_height = 5, inc_type = hash_mismatch, inc_db = ''xx'',
                   inc_bitcoind = ''h5''\<rparr>,
                 \<lparr>inc_height = 6, inc_type = prev_hash_mismatch, inc_db = ''xx'',
                   inc_bitcoind = ''h5''\<rparr>], [])"
    by (simp add: check_height_local10_5)
  have "compare_blocks (db_blocks (local10 5) 0)
               (map_of (bitcoind_blocks (node chain10) [0..9])) 0 [0..9]
             = ([\<lparr>inc_height = 5, inc_type = hash_mismatch, inc_db = ''xx'',
                   inc_bitcoind = ''h5''\<rparr>,
                 \<lparr>inc_height = 6, inc_type = prev_hash_mismatch, inc_db = ''xx'',
                   inc_bitcoind = ''h5''\<rparr>], [])"
    using cmp by (simp only: upto_0_9)
  then show ?thesis
    by (simp add: check_block_consistency_def Let_def max_height_local10_5
        length_bitcoind_chain10 round2_percentages)
qed

lemma window_0_9: "{0..9::int} = set [0, 1, 2, 3, 4, 5, 6, 7, 8, 9]"
  using set_upto [of 0 9] by (simp only: upto_0_9)

lemma local10_9_blocks:
  "blocks (local10 9)
   = [row 0 ''h0'' '''', row 1 ''h1'' ''h0'', row 2 ''h2'' ''h1'', row 3 ''h3'' ''h2'',
      row 4 ''h4'' ''h3'', row 5 ''h5'' ''h4'', row 6 ''h6'' ''h5'', row 7 ''h7'' ''h6'',
      row 8 ''h8'' ''h7'', row 9 ''xx'' ''h8'']"
  by (simp add: local10_def remote_hash_values empty_store_def)

lemma node_chain10_hashes:
  "\<forall>k \<in> {0..9}. getblockhash (node chain10) k = Inr (remote_hash k)"
  unfolding window_0_9
  by (simp add: node_def chain10_payloads payload_def remote_hash_values)

lemma node_chain10_linked:
  "\<forall>k \<in> {0..9}. \<exists>info. getblock (node chain10) (remote_hash k) = Inr info
      \<and> (0 < k \<longrightarrow> bd_previousblockhash info = Some (remote_hash (k - 1)))"
  unfolding window_0_9
  by (simp add: node_def chain10_payloads payload_def remote_hash_values)

theorem audit_one_mutated_hash_witness:
  "map_sum id rp_percentage (check_block_consistency (node chain10) (local10 9) 10) = Inr 90
   \<and> map_sum id rp_total_inconsistencies
        (check_block_consistency (node chain10) (local10 9) 10) = Inr 1
   \<and> map_sum id (map inc_height \<circ> rp_inconsistencies)
        (check_block_consistency (node chain10) (local10 9) 10) = Inr [9]
   \<and> map_sum id (map inc_type \<circ> rp_inconsistencies)
        (check_block_consistency (node chain10) (local10 9) 10) = Inr [hash_mismatch]
   \<and> map_sum id rp_status (check_block_consistency (node chain10) (local10 9) 10)
       = Inr inconsistent"
proof -
  have a1: "(9::int) \<le> 9" and a4: "(9::int) - 9 \<le> 9"
    by simp_all
  have a2: "length (blocks (local10 9)) = 10"
    by (simp add: local10_9_blocks)
  have a3: "height ` set (blocks (local10 9)) = {9 - 9..9}"
    by (simp add: window_0_9) (simp add: local10_9_blocks row_def)
  have a6: "\<forall>b \<in> set (blocks (local10 9)). (hash b = remote_hash (height b)) = (height b \<noteq> 9)"
    by (simp add: local10_9_blocks row_def remote_hash_values)
  have a7: "\<forall>k \<in> {9 - 9..9}. getblockhash (node chain10) k = Inr (remote_hash k)"
    using node_chain10_hashes by simp
  have a8: "\<forall>k \<in> {9 - 9..9}. \<exists>info. getblock (node chain10) (remote_hash k) = Inr info
      \<and> (9 - 9 < k \<longrightarrow> bd_previousblockhash info = Some (remote_hash (k - 1)))"
    using node_chain10_linked by simp
  from audit_one_mutated_hash [OF a1 a2 a3 a4 a1 a6 a7 a8]
  obtain rep where "check_block_consistency (node chain10) (local10 9) 10 = Inr rep"
    and "map (\<lambda>i. (inc_height i, inc_type i)) (rp_inconsistencies rep) = [(9, hash_mismatch)]"
    and "rp_total_inconsistencies rep = 1" and "rp_percentage rep = 90"
    and "rp_status rep = inconsistent"
    by auto
  then show ?thesis
    by (cases "rp_inconsistencies rep") auto
qed

end
